theory Spec2Isabelle
  imports Main "HOL-Library.Word"
begin

unbundle bit_operations_syntax

section \<open>Common vocabulary\<close>

type_synonym byte = "8 word"

text \<open>The exceptions a call can leave by: the error kinds of the message ring (the
  taxonomy of the specification, section 7), which surface as exceptions thrown by
  \<open>RDMAMessageBuffer\<close>, and the two exceptions of \<open>std::stoul\<close>,
  \<open>std::invalid_argument\<close> and \<open>std::out_of_range\<close>.\<close>

datatype error =
    HandshakeFailed
  | RdmaSetupFailed
  | PostSendFailed
  | ConnectionLost
  | BufferTooSmall
  | ProtocolError
  | StdInvalidArgument
  | StdOutOfRange

text \<open>What a call can do: return a value in a new state, leave by an exception in a new
  state, or block for ever.\<close>

datatype ('r, 's) outcome =
    Return 'r 's
  | Throw error 's
  | Blocked

text \<open>\<open>#define ERROR -1\<close> and \<open>#define SUCCESS 0\<close> (part_000, lines 14-15); part_002 takes
  the same two names from its header \<open>overrides.h\<close>.\<close>

definition ERROR :: int where
  "ERROR = - 1"

definition SUCCESS :: int where
  "SUCCESS = 0"

text \<open>Values of the headers \<^verbatim>\<open>sys/socket.h\<close> and \<^verbatim>\<open>poll.h\<close> on Linux.\<close>

definition SOCK_STREAM :: int where
  "SOCK_STREAM = 1"

definition AF_INET :: int where
  "AF_INET = 2"

definition POLLIN :: "16 word" where
  "POLLIN = 1"

definition POLLOUT :: "16 word" where
  "POLLOUT = 4"

definition POLLERR :: "16 word" where
  "POLLERR = 8"

section \<open>The interface of the message buffer used by the overrides\<close>

text \<open>Class \<open>RDMAMessageBuffer\<close> (header \<open>rdma_tests/RDMAMessageBuffer.h\<close>) is used by the
  overrides only through its constructor and the methods \<open>send\<close>, \<open>receive\<close> and \<open>hasData\<close>.
  The overrides are modelled over an arbitrary implementation \<open>'b\<close> of that interface:
  \<^item> \<open>core_construct size fd\<close>: the constructor, which may throw;
  \<^item> \<open>core_send buf bytes\<close>: \<open>send(ptr, len)\<close>;
  \<^item> \<open>core_receive buf cap\<close>: \<open>receive(ptr, cap)\<close>, returning the bytes stored at \<open>ptr\<close>;
  \<^item> \<open>core_receive_all buf\<close>: the argument-free \<open>receive()\<close> of part_000, returning a vector;
  \<^item> \<open>core_hasData buf\<close>: \<open>hasData()\<close>.\<close>

record 'b core =
  core_construct :: "nat \<Rightarrow> int \<Rightarrow> error + 'b"
  core_send :: "'b \<Rightarrow> byte list \<Rightarrow> (unit, 'b) outcome"
  core_receive :: "'b \<Rightarrow> nat \<Rightarrow> (byte list, 'b) outcome"
  core_receive_all :: "'b \<Rightarrow> (byte list, 'b) outcome"
  core_hasData :: "'b \<Rightarrow> bool"

section \<open>What the kernel answers about a socket\<close>

text \<open>The results of the system calls the overrides make on a descriptor:
  \<open>getsockopt(fd, SOL_SOCKET, SO_TYPE, ...)\<close>, \<open>getsockname\<close> and \<open>getpeername\<close>.
  \<open>peer_s_addr\<close> is the content of \<open>connectedAddr.sin_addr.s_addr\<close> after the call
  \<open>getpeername(fd, &connectedAddr, &size)\<close>, whose return value the source ignores.\<close>

record sockinfo =
  getsockopt_rc :: int
  so_type :: int
  getsockname_rc :: int
  sockname_family :: int
  getpeername_rc :: int
  peername_family :: int
  peer_s_addr :: "32 word"

type_synonym kernel = "int \<Rightarrow> sockinfo"

section \<open>part_002: the overrides with opt-in and fork gate\<close>

text \<open>The globals of the anonymous namespace (lines 14-17).\<close>

record 'b shim =
  bridge :: "int \<rightharpoonup> 'b"
  rdmableSockets :: "int set"
  dontCloseRDMA :: bool
  forkGeneration :: "64 word"

text \<open>The state at program start: \<open>dontCloseRDMA = true\<close>, \<open>forkGeneration = 0\<close>.\<close>

definition initial_shim :: "'b shim" where
  "initial_shim =
     \<lparr>bridge = Map.empty, rdmableSockets = {}, dontCloseRDMA = True, forkGeneration = 0\<rparr>"

definition BUFFER_SIZE :: nat where
  "BUFFER_SIZE = 128 * 1024"

text \<open>The process environment: the two variables read with \<open>getenv\<close> (each once, into a
  function-local static), and the two library parsers applied to them: \<open>inet_pton\<close>
  (\<open>None\<close> when it stores nothing) and \<open>std::stoul\<close>, which returns the number or
  throws.\<close>

record environ =
  USE_RDMA :: "string option"
  RDMA_FORKGEN :: "string option"
  inet_pton :: "string \<Rightarrow> 32 word option"
  stoul :: "string \<Rightarrow> error + 64 word"

definition getRdmaEnv :: "environ \<Rightarrow> string option" where
  "getRdmaEnv env = USE_RDMA env"

text \<open>\<open>getForkGenIntercept\<close> (lines 26-30). When \<open>std::stoul\<close> throws, the static
  \<open>forkGen\<close> stays uninitialised and the next call runs the initialiser again, so every
  call throws.\<close>

definition getForkGenIntercept :: "environ \<Rightarrow> error + 64 word" where
  "getForkGenIntercept env =
     (case RDMA_FORKGEN env of None \<Rightarrow> Inr 0 | Some forkGenChars \<Rightarrow> stoul env forkGenChars)"

definition isTcpSocket :: "kernel \<Rightarrow> int \<Rightarrow> bool \<Rightarrow> bool" where
  "isTcpSocket k socket isServer =
     (if getsockopt_rc (k socket) < 0 then False
      else let socketType = so_type (k socket) in
        if isServer then
          (if getsockname_rc (k socket) < 0 then False
           else socketType = SOCK_STREAM \<and> sockname_family (k socket) = AF_INET)
        else
          (if getpeername_rc (k socket) < 0 then False
           else socketType = SOCK_STREAM \<and> peername_family (k socket) = AF_INET))"

text \<open>\<open>sockaddr_in possibleAddr{}\<close> is zero-initialised; the function returns its
  \<open>sin_addr.s_addr\<close>, which stays 0 when the variable is unset or does not parse.\<close>

definition getRDMAReachable :: "environ \<Rightarrow> 32 word" where
  "getRDMAReachable env =
     (case getRdmaEnv env of
        None \<Rightarrow> 0
      | Some text \<Rightarrow> (case inet_pton env text of None \<Rightarrow> 0 | Some addr \<Rightarrow> addr))"

definition shouldServerIntercept :: "environ \<Rightarrow> kernel \<Rightarrow> int \<Rightarrow> int \<Rightarrow> bool" where
  "shouldServerIntercept env k serverSocket clientSocket =
     (if \<not> isTcpSocket k serverSocket True then False
      else let possibleAddr = getRDMAReachable env;
               connectedAddr = peer_s_addr (k clientSocket)
           in connectedAddr = possibleAddr)"

definition shouldClientIntercept :: "environ \<Rightarrow> kernel \<Rightarrow> int \<Rightarrow> bool" where
  "shouldClientIntercept env k socket =
     (if \<not> isTcpSocket k socket False then False
      else let possibleAddr = getRDMAReachable env;
               connectedAddr = peer_s_addr (k socket)
           in connectedAddr = possibleAddr)"

text \<open>\<open>accept\<close> (lines 104-116). \<open>client_socket\<close> is the value returned by
  \<open>real::accept\<close>.\<close>

definition accept_p002 ::
  "environ \<Rightarrow> kernel \<Rightarrow> int \<Rightarrow> 'b shim \<Rightarrow> int \<Rightarrow> int \<times> 'b shim" where
  "accept_p002 env k client_socket s server_socket =
     (if client_socket < 0 then (ERROR, s)
      else if \<not> shouldServerIntercept env k server_socket client_socket then (SUCCESS, s)
      else (client_socket, s\<lparr>rdmableSockets := insert client_socket (rdmableSockets s)\<rparr>))"

text \<open>\<open>connect\<close> (lines 118-137). \<open>connect_rc\<close> is the value of \<open>real::connect\<close>,
  \<open>in_progress\<close> says whether \<open>errno\<close> is \<open>EINPROGRESS\<close> after it, and \<open>poll_revents\<close> is
  what \<open>real::poll\<close> stores in \<open>pfd.revents\<close>.\<close>

definition connect_p002 ::
  "environ \<Rightarrow> kernel \<Rightarrow> int \<Rightarrow> bool \<Rightarrow> 16 word \<Rightarrow> 'b shim \<Rightarrow> int \<Rightarrow> int \<times> 'b shim" where
  "connect_p002 env k connect_rc in_progress poll_revents s fd =
     (if connect_rc = ERROR \<and> \<not> in_progress then (ERROR, s)
      else if connect_rc = ERROR \<and> poll_revents AND POLLERR \<noteq> 0 then (ERROR, s)
      else if \<not> shouldClientIntercept env k fd then (SUCCESS, s)
      else (SUCCESS, s\<lparr>rdmableSockets := insert fd (rdmableSockets s)\<rparr>))"

text \<open>\<open>write\<close> (lines 139-152). \<open>source\<close> is the buffer of \<open>requested_bytes\<close> bytes,
  \<open>real_write\<close> the value \<open>real::write\<close> returns. The function returns
  \<open>requested_bytes\<close>, here the length of \<open>source\<close>. The ring is built with the
  descriptor already erased from \<open>rdmableSockets\<close>; there is no \<open>try\<close> around the
  constructor, so its exception leaves \<open>write\<close>, and as the right operand of the
  assignment is evaluated first, \<open>bridge\<close> gets no entry then. After a successful
  construction the function calls itself. At line 144 \<open>getForkGenIntercept()\<close> is an
  operand of \<open>==\<close> and is called before \<open>rdmableSockets\<close> is looked at, so its exception
  leaves \<open>write\<close> for every descriptor without a ring.\<close>

function write_p002 ::
  "'b core \<Rightarrow> environ \<Rightarrow> int \<Rightarrow> 'b shim \<Rightarrow> int \<Rightarrow> byte list \<Rightarrow> (int, 'b shim) outcome" where
  "write_p002 c env real_write s fd source =
     (case bridge s fd of
        Some buf \<Rightarrow>
          (case core_send c buf source of
             Return u buf' \<Rightarrow> Return (int (length source)) (s\<lparr>bridge := (bridge s)(fd \<mapsto> buf')\<rparr>)
           | Throw e buf' \<Rightarrow> Throw e (s\<lparr>bridge := (bridge s)(fd \<mapsto> buf')\<rparr>)
           | Blocked \<Rightarrow> Blocked)
      | None \<Rightarrow>
          (case getForkGenIntercept env of
             Inl e \<Rightarrow> Throw e s
           | Inr forkGen \<Rightarrow>
               if forkGeneration s = forkGen \<and> fd \<in> rdmableSockets s then
                 (case core_construct c BUFFER_SIZE fd of
                    Inl e \<Rightarrow> Throw e (s\<lparr>rdmableSockets := rdmableSockets s - {fd}\<rparr>)
                  | Inr buf \<Rightarrow>
                      write_p002 c env real_write
                        (s\<lparr>rdmableSockets := rdmableSockets s - {fd},
                           bridge := (bridge s)(fd \<mapsto> buf)\<rparr>) fd source)
               else Return real_write s))"
  by pat_completeness auto
termination
  by (relation "measure (\<lambda>(c, env, real_write, s, fd, source).
        if bridge s fd = None then 1 else 0)") auto

text \<open>\<open>read\<close> (lines 154-167). \<open>real_read\<close> is what \<open>real::read\<close> returns and stores at
  \<open>destination\<close>. The result is the value returned together with the bytes stored at
  \<open>destination\<close>.\<close>

function read_p002 ::
  "'b core \<Rightarrow> environ \<Rightarrow> int \<times> byte list \<Rightarrow> 'b shim \<Rightarrow> int \<Rightarrow> nat
     \<Rightarrow> (int \<times> byte list, 'b shim) outcome" where
  "read_p002 c env real_read s fd requested_bytes =
     (case bridge s fd of
        Some buf \<Rightarrow>
          (case core_receive c buf requested_bytes of
             Return res buf' \<Rightarrow>
               Return (int (length res), res) (s\<lparr>bridge := (bridge s)(fd \<mapsto> buf')\<rparr>)
           | Throw e buf' \<Rightarrow> Throw e (s\<lparr>bridge := (bridge s)(fd \<mapsto> buf')\<rparr>)
           | Blocked \<Rightarrow> Blocked)
      | None \<Rightarrow>
          (case getForkGenIntercept env of
             Inl e \<Rightarrow> Throw e s
           | Inr forkGen \<Rightarrow>
               if forkGeneration s = forkGen \<and> fd \<in> rdmableSockets s then
                 (case core_construct c BUFFER_SIZE fd of
                    Inl e \<Rightarrow> Throw e (s\<lparr>rdmableSockets := rdmableSockets s - {fd}\<rparr>)
                  | Inr buf \<Rightarrow>
                      read_p002 c env real_read
                        (s\<lparr>rdmableSockets := rdmableSockets s - {fd},
                           bridge := (bridge s)(fd \<mapsto> buf)\<rparr>) fd requested_bytes)
               else Return real_read s))"
  by pat_completeness auto
termination
  by (relation "measure (\<lambda>(c, env, real_read, s, fd, requested_bytes).
        if bridge s fd = None then 1 else 0)") auto

text \<open>\<open>close\<close> (lines 169-175); \<open>real_close\<close> is the value of \<open>real::close\<close>.\<close>

definition close_p002 :: "int \<Rightarrow> 'b shim \<Rightarrow> int \<Rightarrow> int \<times> 'b shim" where
  "close_p002 real_close s fd =
     (real_close, if \<not> dontCloseRDMA s then s\<lparr>bridge := (bridge s)(fd := None)\<rparr> else s)"

text \<open>\<open>send\<close> and \<open>recv\<close> (lines 177-205), outside \<open>__APPLE__\<close>.\<close>

definition MSG_NOSIGNAL :: int where
  "MSG_NOSIGNAL = 16384"

definition send_p002 ::
  "'b core \<Rightarrow> environ \<Rightarrow> int \<Rightarrow> int \<Rightarrow> 'b shim \<Rightarrow> int \<Rightarrow> byte list \<Rightarrow> int
     \<Rightarrow> (int, 'b shim) outcome" where
  "send_p002 c env real_write real_send s fd buffer flags =
     (if flags = 0 \<or> flags = MSG_NOSIGNAL then write_p002 c env real_write s fd buffer
      else Return real_send s)"

definition recv_p002 ::
  "'b core \<Rightarrow> environ \<Rightarrow> int \<times> byte list \<Rightarrow> int \<times> byte list \<Rightarrow> 'b shim \<Rightarrow> int \<Rightarrow> nat \<Rightarrow> int
     \<Rightarrow> (int \<times> byte list, 'b shim) outcome" where
  "recv_p002 c env real_read real_recv s fd len flags =
     (if flags = 0 \<or> flags = MSG_NOSIGNAL then read_p002 c env real_read s fd len
      else Return real_recv s)"

text \<open>\<open>fork\<close> (lines 257-264). \<open>res\<close> is the value of \<open>real::fork\<close> in the process the
  call returns in: 0 in the child, the child's pid in the parent, -1 on failure.\<close>

definition fork_p002 :: "int \<Rightarrow> 'b shim \<Rightarrow> int \<times> 'b shim" where
  "fork_p002 res s =
     (let s1 = s\<lparr>dontCloseRDMA := True\<rparr>
      in (res, if res = 0 then s1\<lparr>forkGeneration := forkGeneration s1 + 1\<rparr> else s1))"

text \<open>\<open>poll\<close> (lines 266-311). The array \<open>fds\<close> of \<open>nfds\<close> entries is a list.\<close>

record pollfd =
  poll_fd :: int
  events :: "16 word"
  revents :: "16 word"

text \<open>Lines 272-278: the indices of the bridged and of the other descriptors.\<close>

definition rdma_indices :: "(int \<rightharpoonup> 'b) \<Rightarrow> pollfd list \<Rightarrow> nat list" where
  "rdma_indices br fds = filter (\<lambda>index. br (poll_fd (fds ! index)) \<noteq> None) [0..<length fds]"

definition normal_indices :: "(int \<rightharpoonup> 'b) \<Rightarrow> pollfd list \<Rightarrow> nat list" where
  "normal_indices br fds = filter (\<lambda>index. br (poll_fd (fds ! index)) = None) [0..<length fds]"

text \<open>Lines 286-294, the body of the inner loop for index \<open>i\<close>. The buffers live in memory
  the peer writes to, so \<open>hasData\<close> is asked of the buffer as the peer has left it by the
  current pass, \<open>seen buf\<close>. Every index in \<open>rdma_fds\<close> was found in \<open>bridge\<close> at line 273,
  and neither \<open>bridge\<close> nor a \<open>fd\<close> field changes afterwards, so the lookup of line 286
  finds a buffer.\<close>

definition poll_visit ::
  "'b core \<Rightarrow> ('b \<Rightarrow> 'b) \<Rightarrow> (int \<rightharpoonup> 'b) \<Rightarrow> nat \<Rightarrow> pollfd list \<times> int \<Rightarrow> pollfd list \<times> int" where
  "poll_visit c seen br i st =
     (let fds = fst st; event_count = snd st; p = fds ! i;
          ready = (case br (poll_fd p) of None \<Rightarrow> False | Some msgBuf \<Rightarrow> core_hasData c (seen msgBuf));
          inFlag = events p AND POLLIN;
          count1 = (if ready \<and> inFlag \<noteq> 0 then event_count + 1 else event_count);
          p1 = (if ready then p\<lparr>revents := revents p OR inFlag\<rparr> else p);
          outFlag = events p AND POLLOUT;
          count2 = (if outFlag \<noteq> 0 then count1 + 1 else count1);
          p2 = p1\<lparr>revents := revents p1 OR outFlag\<rparr>
      in (fds[i := p2], count2))"

text \<open>Lines 283-298, the \<open>do ... while\<close> loop. \<open>k\<close> counts the passes; \<open>peer k\<close> is what the
  peer has done to a buffer by pass \<open>k\<close>, and \<open>clock k\<close> the nanoseconds elapsed since
  \<open>start\<close> when the loop condition is evaluated after pass \<open>k\<close>. The condition compares
  the elapsed milliseconds with \<open>timeout\<close>. The loop need not end.\<close>

partial_function (option) poll_loop ::
  "'b core \<Rightarrow> (nat \<Rightarrow> 'b \<Rightarrow> 'b) \<Rightarrow> (nat \<Rightarrow> nat) \<Rightarrow> int \<Rightarrow> (int \<rightharpoonup> 'b) \<Rightarrow> nat list
     \<Rightarrow> pollfd list \<times> int \<Rightarrow> nat \<Rightarrow> (pollfd list \<times> int) option" where
  "poll_loop c peer clock timeout br rdma_fds st k =
     (let st1 = fold (poll_visit c (peer k) br) rdma_fds st in
      if snd st1 > 0 then Some st1
      else if int (clock k) > timeout * 1000000
        then poll_loop c peer clock timeout br rdma_fds st1 (Suc k)
        else Some st1)"

text \<open>The whole function. \<open>real_poll\<close> is the value of \<open>real::poll\<close> together with the
  array as the kernel leaves it. The result is the value returned and the array.\<close>

definition poll_p002 ::
  "'b core \<Rightarrow> int \<times> pollfd list \<Rightarrow> (nat \<Rightarrow> 'b \<Rightarrow> 'b) \<Rightarrow> (nat \<Rightarrow> nat) \<Rightarrow> 'b shim
     \<Rightarrow> pollfd list \<Rightarrow> int \<Rightarrow> (int \<times> pollfd list) option" where
  "poll_p002 c real_poll peer clock s fds timeout =
     (if length fds = 0 then Some (0, fds)
      else let rdma_fds = rdma_indices (bridge s) fds;
               normal_fds = normal_indices (bridge s) fds
        in if length rdma_fds = 0 then
             Some (fst real_poll, map (\<lambda>p. p\<lparr>revents := 0\<rparr>) (snd real_poll))
           else if length normal_fds = 0 then
             (case poll_loop c peer clock timeout (bridge s) rdma_fds (fds, 0) 0 of
                None \<Rightarrow> None
              | Some st \<Rightarrow> Some (snd st, map (\<lambda>p. p\<lparr>revents := 0\<rparr>) (fst st)))
           else Some (ERROR, fds))"

text \<open>What \<open>write\<close> and \<open>read\<close> make of the outcome of a call into the buffer of a
  bridged descriptor (lines 141-142 and 156): the value returned is computed from the
  buffer's result, and the buffer of \<open>fd\<close> is the one the call has left.\<close>

definition via_ring ::
  "'b shim \<Rightarrow> int \<Rightarrow> ('r \<Rightarrow> 'v) \<Rightarrow> ('r, 'b) outcome \<Rightarrow> ('v, 'b shim) outcome" where
  "via_ring s fd f out =
     (case out of
        Return res buf' \<Rightarrow> Return (f res) (s\<lparr>bridge := (bridge s)(fd \<mapsto> buf')\<rparr>)
      | Throw e buf' \<Rightarrow> Throw e (s\<lparr>bridge := (bridge s)(fd \<mapsto> buf')\<rparr>)
      | Blocked \<Rightarrow> Blocked)"

text \<open>The states of part_002 a process can be in: the initial one, and the one in which
  any of the overrides above has returned or thrown, whatever the kernel and the peer
  did.\<close>

inductive reachable :: "'b core \<Rightarrow> environ \<Rightarrow> 'b shim \<Rightarrow> bool" for c :: "'b core" and env :: environ where
  start: "reachable c env initial_shim"
| after_accept: "reachable c env s \<Longrightarrow> reachable c env (snd (accept_p002 env k client_socket s server_socket))"
| after_connect:
    "reachable c env s \<Longrightarrow> reachable c env (snd (connect_p002 env k connect_rc in_progress poll_revents s fd))"
| after_write: "reachable c env s \<Longrightarrow> write_p002 c env real_write s fd source = Return n s' \<Longrightarrow> reachable c env s'"
| after_write_throw: "reachable c env s \<Longrightarrow> write_p002 c env real_write s fd source = Throw e s' \<Longrightarrow> reachable c env s'"
| after_read: "reachable c env s \<Longrightarrow> read_p002 c env real_read s fd requested_bytes = Return res s' \<Longrightarrow> reachable c env s'"
| after_read_throw: "reachable c env s \<Longrightarrow> read_p002 c env real_read s fd requested_bytes = Throw e s' \<Longrightarrow> reachable c env s'"
| after_close: "reachable c env s \<Longrightarrow> reachable c env (snd (close_p002 real_close s fd))"
| after_fork: "reachable c env s \<Longrightarrow> reachable c env (snd (fork_p002 res s))"

code_pred reachable .

section \<open>part_000: the overrides without opt-in\<close>

text \<open>The only global is \<open>bridge\<close> (line 17).

  \<open>accept\<close> (lines 27-65). \<open>socketType\<close> is assigned the return value of
  \<open>real::getsockopt\<close>, not the option it stores. The ring is built inside \<open>try\<close>; the
  right operand of the assignment is evaluated first, so a throwing constructor leaves
  \<open>bridge\<close> as it was.\<close>

definition accept_p000 ::
  "'b core \<Rightarrow> kernel \<Rightarrow> int \<Rightarrow> (int \<rightharpoonup> 'b) \<Rightarrow> int \<Rightarrow> int \<times> (int \<rightharpoonup> 'b)" where
  "accept_p000 c k client_socket br server_socket =
     (if client_socket < 0 then (ERROR, br)
      else let socketType = getsockopt_rc (k server_socket) in
        if socketType < 0 then (ERROR, br)
        else if getsockname_rc (k server_socket) < 0 then (ERROR, br)
        else let addressLocation = sockname_family (k server_socket) in
          if \<not> (socketType = SOCK_STREAM \<and> addressLocation = AF_INET) then (SUCCESS, br)
          else (case core_construct c (4 * 1024) client_socket of
                  Inl e \<Rightarrow> (ERROR, br)
                | Inr buf \<Rightarrow> (SUCCESS, br(client_socket \<mapsto> buf))))"

text \<open>\<open>connect\<close> (lines 69-107), built like \<open>accept\<close>; \<open>connect_rc\<close> is the value of
  \<open>real::connect\<close>.\<close>

definition connect_p000 ::
  "'b core \<Rightarrow> kernel \<Rightarrow> int \<Rightarrow> (int \<rightharpoonup> 'b) \<Rightarrow> int \<Rightarrow> int \<times> (int \<rightharpoonup> 'b)" where
  "connect_p000 c k connect_rc br fd =
     (if connect_rc = ERROR then (ERROR, br)
      else let socketType = getsockopt_rc (k fd) in
        if socketType < 0 then (ERROR, br)
        else if getpeername_rc (k fd) < 0 then (ERROR, br)
        else let addressLocation = peername_family (k fd) in
          if \<not> (socketType = SOCK_STREAM \<and> addressLocation = AF_INET) then (SUCCESS, br)
          else (case core_construct c (4 * 1024) fd of
                  Inl e \<Rightarrow> (ERROR, br)
                | Inr buf \<Rightarrow> (SUCCESS, br(fd \<mapsto> buf))))"

text \<open>\<open>write\<close> (lines 109-117): on a bridged descriptor it returns \<open>SUCCESS\<close>.\<close>

definition write_p000 ::
  "'b core \<Rightarrow> int \<Rightarrow> (int \<rightharpoonup> 'b) \<Rightarrow> int \<Rightarrow> byte list \<Rightarrow> (int, int \<rightharpoonup> 'b) outcome" where
  "write_p000 c real_write br fd source =
     (case br fd of
        Some buf \<Rightarrow>
          (case core_send c buf source of
             Return u buf' \<Rightarrow> Return SUCCESS (br(fd \<mapsto> buf'))
           | Throw e buf' \<Rightarrow> Throw e (br(fd \<mapsto> buf'))
           | Blocked \<Rightarrow> Blocked)
      | None \<Rightarrow> Return real_write br)"

text \<open>\<open>read\<close> (lines 119-131): the message is taken out of the ring by \<open>receive()\<close> before
  its size is compared with \<open>requested_bytes\<close>; when it is larger nothing is copied.\<close>

definition read_p000 ::
  "'b core \<Rightarrow> int \<times> byte list \<Rightarrow> (int \<rightharpoonup> 'b) \<Rightarrow> int \<Rightarrow> nat
     \<Rightarrow> (int \<times> byte list, int \<rightharpoonup> 'b) outcome" where
  "read_p000 c real_read br fd requested_bytes =
     (case br fd of
        Some buf \<Rightarrow>
          (case core_receive_all c buf of
             Return res buf' \<Rightarrow>
               if length res > requested_bytes then Return (ERROR, []) (br(fd \<mapsto> buf'))
               else Return (int (length res), res) (br(fd \<mapsto> buf'))
           | Throw e buf' \<Rightarrow> Throw e (br(fd \<mapsto> buf'))
           | Blocked \<Rightarrow> Blocked)
      | None \<Rightarrow> Return real_read br)"

text \<open>\<open>close\<close> (lines 135-152): the entry is erased, which destroys the buffer.\<close>

definition close_p000 :: "int \<Rightarrow> (int \<rightharpoonup> 'b) \<Rightarrow> int \<Rightarrow> int \<times> (int \<rightharpoonup> 'b)" where
  "close_p000 real_close br fd = (real_close, br(fd := None))"

text \<open>The values \<open>bridge\<close> of part_000 can have in a process: empty when the library is
  loaded, and what any of the overrides above leaves behind, whatever the kernel and the
  peer did. \<open>real::getsockopt\<close> returns 0 or -1 (POSIX), and that return value is what
  \<open>accept\<close> and \<open>connect\<close> assign to \<open>socketType\<close>.\<close>

inductive reachable_p000 :: "'b core \<Rightarrow> (int \<rightharpoonup> 'b) \<Rightarrow> bool" for c :: "'b core" where
  start_p000: "reachable_p000 c Map.empty"
| after_accept_p000:
    "reachable_p000 c br
     \<Longrightarrow> getsockopt_rc (k server_socket) = 0 \<or> getsockopt_rc (k server_socket) = - 1
     \<Longrightarrow> reachable_p000 c (snd (accept_p000 c k client_socket br server_socket))"
| after_connect_p000:
    "reachable_p000 c br \<Longrightarrow> getsockopt_rc (k fd) = 0 \<or> getsockopt_rc (k fd) = - 1
     \<Longrightarrow> reachable_p000 c (snd (connect_p000 c k connect_rc br fd))"
| after_write_p000:
    "reachable_p000 c br \<Longrightarrow> write_p000 c real_write br fd source = Return n br'
     \<Longrightarrow> reachable_p000 c br'"
| after_write_throw_p000:
    "reachable_p000 c br \<Longrightarrow> write_p000 c real_write br fd source = Throw e br'
     \<Longrightarrow> reachable_p000 c br'"
| after_read_p000:
    "reachable_p000 c br \<Longrightarrow> read_p000 c real_read br fd requested_bytes = Return res br'
     \<Longrightarrow> reachable_p000 c br'"
| after_read_throw_p000:
    "reachable_p000 c br \<Longrightarrow> read_p000 c real_read br fd requested_bytes = Throw e br'
     \<Longrightarrow> reachable_p000 c br'"
| after_close_p000: "reachable_p000 c br \<Longrightarrow> reachable_p000 c (snd (close_p000 real_close br fd))"

code_pred reachable_p000 .

section \<open>The message ring\<close>

text \<open>The overrides above call into class \<open>RDMAMessageBuffer\<close>, whose sources are not
  among the source files modelled here. This section models it from the specification
  (sections 3, 4.2 and 4.3).\<close>

text \<open>Modelled from the spec: the ring buffer of section 3, missing with the sources of
  \<open>RDMAMessageBuffer\<close>. One \<open>ring\<close> value is one direction of a connection: the receive
  ring of \<open>N\<close> bytes in the consumer's memory, the producer's \<open>writePos\<close> and cached
  \<open>peerReadPos\<close>, the consumer's \<open>readPos\<close>, and the read-position slot with the last
  \<open>readPos\<close> the consumer published. The cursors are natural numbers, as the specification
  treats its 64-bit counters as unbounded.\<close>

record ring =
  ring_size :: nat
  mem :: "byte list"
  writePos :: nat
  peerReadPos :: nat
  readPos :: nat
  slot :: nat

text \<open>Modelled from the spec: the constant of the footer, missing with the sources of the
  ring; section 6 writes the footer as \<open>length XOR 0xDEADBEEF\<close>.\<close>

definition VALIDITY_MASK :: "32 word" where
  "VALIDITY_MASK = 0xDEADBEEF"

text \<open>Modelled from the spec: the little-endian 4-byte fields of the framing (section 3),
  missing with the sources of the ring.\<close>

definition le32 :: "32 word \<Rightarrow> byte list" where
  "le32 w =
     [of_nat (unat w mod 256), of_nat (unat w div 256 mod 256),
      of_nat (unat w div 65536 mod 256), of_nat (unat w div 16777216 mod 256)]"

definition of_le32 :: "byte list \<Rightarrow> 32 word" where
  "of_le32 bs =
     of_nat (unat (bs ! 0) + 256 * unat (bs ! 1) + 65536 * unat (bs ! 2)
             + 16777216 * unat (bs ! 3))"

text \<open>Modelled from the spec: a message in the ring (section 3, Framing): the length, the
  payload, the footer \<open>length XOR VALIDITY_MASK\<close>.\<close>

definition frame :: "byte list \<Rightarrow> byte list" where
  "frame payload =
     le32 (of_nat (length payload)) @ payload
       @ le32 (of_nat (length payload) XOR VALIDITY_MASK)"

text \<open>Modelled from the spec: access to the ring memory, missing with the sources of the
  ring. The physical offset of a cursor is the cursor modulo \<open>N\<close> (section 3); \<open>rd\<close> reads
  \<open>n\<close> bytes from cursor \<open>pos\<close> on, \<open>zero_out\<close> clears them, \<open>wr_at\<close> stores a block at an
  offset at which it fits.\<close>

definition rd :: "byte list \<Rightarrow> nat \<Rightarrow> nat \<Rightarrow> nat \<Rightarrow> byte list" where
  "rd m N pos n = map (\<lambda>i. m ! ((pos + i) mod N)) [0..<n]"

definition zero_out :: "byte list \<Rightarrow> nat \<Rightarrow> nat \<Rightarrow> nat \<Rightarrow> byte list" where
  "zero_out m N pos n = fold (\<lambda>i m'. m'[(pos + i) mod N := 0]) [0..<n] m"

definition wr_at :: "byte list \<Rightarrow> nat \<Rightarrow> byte list \<Rightarrow> byte list" where
  "wr_at m off block = take off m @ block @ drop (off + length block) m"

text \<open>Modelled from the spec: a ring after construction (section 3, lifecycles): memory
  allocated and zero, cursors zero.\<close>

definition fresh :: "nat \<Rightarrow> ring" where
  "fresh N =
     \<lparr>ring_size = N, mem = replicate N 0, writePos = 0, peerReadPos = 0, readPos = 0,
      slot = 0\<rparr>"

text \<open>Modelled from the spec: the send path (section 4.2), missing with the sources of the
  ring. \<open>padding\<close> is the tail the wrap policy skips: the whole tail \<open>[writePos mod N, N)\<close>
  when \<open>(writePos mod N) + 12 + length > N\<close>, nothing otherwise. \<open>needed\<close> is the counter
  space of the message, \<open>12 + length\<close> plus the padding; \<open>free_space\<close> is
  \<open>N - (writePos - peerReadPos)\<close>.\<close>

definition padding :: "ring \<Rightarrow> nat \<Rightarrow> nat" where
  "padding r len =
     (let N = ring_size r; off = writePos r mod N
      in if off + 12 + len > N then N - off else 0)"

definition needed :: "ring \<Rightarrow> nat \<Rightarrow> nat" where
  "needed r len = padding r len + 12 + len"

definition free_space :: "ring \<Rightarrow> nat" where
  "free_space r = ring_size r - (writePos r - peerReadPos r)"

text \<open>Modelled from the spec: the wait for free space (section 4.2). When the space is
  short the sender refreshes \<open>peerReadPos\<close> from the read-position slot, once, and
  retries; after that it spins. Alone on the ring, a spinning sender never returns:
  \<open>None\<close>.\<close>

partial_function (option) send_wait :: "ring \<Rightarrow> nat \<Rightarrow> bool \<Rightarrow> ring option" where
  "send_wait r need refreshed =
     (if need \<le> free_space r then Some r
      else if \<not> refreshed then send_wait (r\<lparr>peerReadPos := slot r\<rparr>) need True
      else send_wait r need True)"

text \<open>Modelled from the spec: posting (section 4.2): header, payload and footer go to the
  peer's ring as one unit, after the padding, and \<open>writePos\<close> advances by the counter
  space used. The provider is taken to accept the work request.\<close>

definition post :: "ring \<Rightarrow> byte list \<Rightarrow> ring" where
  "post r payload =
     (let N = ring_size r; start = writePos r + padding r (length payload)
      in r\<lparr>mem := wr_at (mem r) (start mod N) (frame payload),
           writePos := writePos r + needed r (length payload)\<rparr>)"

text \<open>Modelled from the spec: \<open>send(bytes, length)\<close> (section 4.2).\<close>

definition send :: "ring \<Rightarrow> byte list \<Rightarrow> ring option" where
  "send r payload =
     (case send_wait r (needed r (length payload)) False of
        None \<Rightarrow> None
      | Some r1 \<Rightarrow> Some (post r1 payload))"

text \<open>Modelled from the spec: the detection algorithm (section 4.3, steps 1 to 3) at
  \<open>readPos\<close>: no data, padding to skip up to a cursor, a length beyond \<open>N - 12\<close>, or a
  message of some length that has landed.\<close>

datatype detection = NoData | SkipTo nat | Corrupt | Landed nat

definition detect :: "ring \<Rightarrow> detection" where
  "detect r =
     (let N = ring_size r; off = readPos r mod N;
          len = unat (of_le32 (rd (mem r) N (readPos r) 4))
      in if len = 0 then (if off + 12 > N then SkipTo (readPos r + (N - off)) else NoData)
         else if len > N - 12 then Corrupt
         else if of_le32 (rd (mem r) N (readPos r + 4 + len) 4) \<noteq> of_nat len XOR VALIDITY_MASK
           then NoData
         else Landed len)"

text \<open>Modelled from the spec: step 4 of the detection algorithm and the publishing of
  \<open>readPos\<close> (section 4.3): the message bytes are zeroed, \<open>readPos\<close> advances by
  \<open>12 + length\<close>, and the slot is written when the cursor has moved more than \<open>N/2\<close> past
  the value last published.\<close>

definition consume :: "ring \<Rightarrow> nat \<Rightarrow> ring" where
  "consume r len =
     (let N = ring_size r;
          r1 = r\<lparr>mem := zero_out (mem r) N (readPos r) (12 + len), readPos := readPos r + 12 + len\<rparr>
      in if readPos r1 - slot r1 > N div 2 then r1\<lparr>slot := readPos r1\<rparr> else r1)"

text \<open>Modelled from the spec: \<open>receive(dst, cap)\<close> (section 4.3). It polls until a message
  has landed; alone on the ring, a receiver that finds no data polls for ever: \<open>None\<close>.
  Wrap padding is skipped by advancing \<open>readPos\<close> to the boundary and retrying (section
  4.2, wrap policy). A capacity below the length is \<open>BufferTooSmall\<close>, and the ring is
  returned as it is at that point: the message in place, \<open>readPos\<close> behind any padding
  skipped on the way.\<close>

partial_function (option) receive :: "ring \<Rightarrow> nat \<Rightarrow> ((error + byte list) \<times> ring) option" where
  "receive r cap =
     (case detect r of
        NoData \<Rightarrow> receive r cap
      | SkipTo p \<Rightarrow> receive (r\<lparr>readPos := p\<rparr>) cap
      | Corrupt \<Rightarrow> Some (Inl ProtocolError, r)
      | Landed len \<Rightarrow>
          if cap < len then Some (Inl BufferTooSmall, r)
          else Some (Inr (rd (mem r) (ring_size r) (readPos r + 4) len), consume r len))"


text \<open>Modelled from the spec: \<open>hasData()\<close> (section 4.3): a complete message is visible at
  \<open>readPos\<close>, behind padding where the detection algorithm skips some.\<close>

definition hasData :: "ring \<Rightarrow> bool" where
  "hasData r =
     (case detect r of
        Landed len \<Rightarrow> True
      | SkipTo p \<Rightarrow> (case detect (r\<lparr>readPos := p\<rparr>) of Landed len \<Rightarrow> True | _ \<Rightarrow> False)
      | _ \<Rightarrow> False)"

text \<open>Modelled from the spec: the message buffer of one endpoint (section 4.4), missing with
  the sources of the ring: the ring it receives from and the ring it sends into. The
  argument-free \<open>receive()\<close> of part_000 hands the whole message over as a vector, so no
  capacity is too small for it.\<close>

record msgbuf =
  rx :: ring
  tx :: ring

definition buf_send :: "msgbuf \<Rightarrow> byte list \<Rightarrow> (unit, msgbuf) outcome" where
  "buf_send buf payload =
     (case send (tx buf) payload of
        None \<Rightarrow> Blocked
      | Some t \<Rightarrow> Return () (buf\<lparr>tx := t\<rparr>))"

definition buf_receive :: "msgbuf \<Rightarrow> nat \<Rightarrow> (byte list, msgbuf) outcome" where
  "buf_receive buf cap =
     (case receive (rx buf) cap of
        None \<Rightarrow> Blocked
      | Some (Inl e, r) \<Rightarrow> Throw e (buf\<lparr>rx := r\<rparr>)
      | Some (Inr payload, r) \<Rightarrow> Return payload (buf\<lparr>rx := r\<rparr>))"

definition buf_receive_all :: "msgbuf \<Rightarrow> (byte list, msgbuf) outcome" where
  "buf_receive_all buf = buf_receive buf (ring_size (rx buf))"

text \<open>Modelled from the spec: the interface of the overrides filled with the ring; \<open>ctor\<close>
  is what the constructor does for a size and a descriptor, which depends on the
  handshake with the peer (section 4.1).\<close>

definition ring_core :: "(nat \<Rightarrow> int \<Rightarrow> error + msgbuf) \<Rightarrow> msgbuf core" where
  "ring_core ctor =
     \<lparr>core_construct = ctor, core_send = buf_send, core_receive = buf_receive,
      core_receive_all = buf_receive_all, core_hasData = (\<lambda>buf. hasData (rx buf))\<rparr>"

text \<open>Modelled from the spec: a handshake that succeeds gives two fresh rings; one that
  fails throws \<open>HandshakeFailed\<close> (section 4.1).\<close>

definition ctor_ok :: "nat \<Rightarrow> int \<Rightarrow> error + msgbuf" where
  "ctor_ok N fd = Inr \<lparr>rx = fresh N, tx = fresh N\<rparr>"

definition ctor_fails :: "nat \<Rightarrow> int \<Rightarrow> error + msgbuf" where
  "ctor_fails N fd = Inl HandshakeFailed"

section \<open>Concrete inputs\<close>

text \<open>Environments: neither variable set; \<open>USE_RDMA=10.0.0.1\<close>; \<open>USE_RDMA=10.0.0.1\<close> with
  \<open>RDMA_FORKGEN=1\<close>; and \<open>USE_RDMA=10.0.0.1\<close> with \<open>RDMA_FORKGEN=abc\<close>, on which
  \<open>std::stoul\<close> throws \<open>std::invalid_argument\<close>. The address 10.0.0.1 in network byte
  order reads \<open>0x0100000A\<close> on a little-endian host.\<close>

definition env_unset :: environ where
  "env_unset =
     \<lparr>USE_RDMA = None, RDMA_FORKGEN = None, inet_pton = (\<lambda>text. None),
      stoul = (\<lambda>text. Inl StdInvalidArgument)\<rparr>"

definition env_rdma :: environ where
  "env_rdma =
     \<lparr>USE_RDMA = Some ''10.0.0.1'', RDMA_FORKGEN = None,
      inet_pton = (\<lambda>text. if text = ''10.0.0.1'' then Some 0x0100000A else None),
      stoul = (\<lambda>text. Inl StdInvalidArgument)\<rparr>"

definition env_fork :: environ where
  "env_fork =
     \<lparr>USE_RDMA = Some ''10.0.0.1'', RDMA_FORKGEN = Some ''1'',
      inet_pton = (\<lambda>text. if text = ''10.0.0.1'' then Some 0x0100000A else None),
      stoul = (\<lambda>text. if text = ''1'' then Inr 1 else Inl StdInvalidArgument)\<rparr>"

definition env_bad :: environ where
  "env_bad =
     \<lparr>USE_RDMA = Some ''10.0.0.1'', RDMA_FORKGEN = Some ''abc'',
      inet_pton = (\<lambda>text. if text = ''10.0.0.1'' then Some 0x0100000A else None),
      stoul = (\<lambda>text. if text = ''1'' then Inr 1 else Inl StdInvalidArgument)\<rparr>"

text \<open>What the kernel reports for a connected IPv4 stream socket whose peer address reads
  \<open>peer\<close>; and a kernel in which descriptor 5 has lost its peer, so that \<open>getpeername\<close>
  fails on it and \<open>connectedAddr\<close> keeps the bytes it had, here zero.\<close>

definition tcp_socket :: "32 word \<Rightarrow> sockinfo" where
  "tcp_socket peer =
     \<lparr>getsockopt_rc = 0, so_type = SOCK_STREAM, getsockname_rc = 0, sockname_family = AF_INET,
      getpeername_rc = 0, peername_family = AF_INET, peer_s_addr = peer\<rparr>"

definition peer_gone :: kernel where
  "peer_gone fd =
     (if fd = 5 then (tcp_socket 0)\<lparr>getpeername_rc := - 1\<rparr> else tcp_socket 0x0100007F)"

text \<open>Payloads, buffers and states: the five bytes of "hello", a message of ten bytes, an
  idle buffer, a buffer whose receive ring holds the ten-byte message, the state in which
  descriptor 5 is marked RDMA-capable, and the state in which descriptor 7 has a ring
  into which "hello" has been sent.\<close>

definition hello :: "byte list" where
  "hello = [0x68, 0x65, 0x6c, 0x6c, 0x6f]"

definition ten_bytes :: "byte list" where
  "ten_bytes = [1, 2, 3, 4, 5, 6, 7, 8, 9, 10]"

definition idle :: msgbuf where
  "idle = \<lparr>rx = fresh 4096, tx = fresh 4096\<rparr>"

definition pending :: msgbuf where
  "pending = \<lparr>rx = post (fresh 4096) ten_bytes, tx = fresh 4096\<rparr>"

definition marked :: "msgbuf shim" where
  "marked = initial_shim\<lparr>rdmableSockets := {5}\<rparr>"

definition bridged :: "msgbuf shim" where
  "bridged =
     initial_shim\<lparr>bridge :=
       [7 \<mapsto> \<lparr>rx = fresh BUFFER_SIZE, tx = post (fresh BUFFER_SIZE) hello\<rparr>]\<rparr>"

text \<open>The state of a child process in which descriptor 7 is marked RDMA-capable and still
  has the ring of an earlier connection: the parent accepted 7 from 10.0.0.1 and wrote
  "hello" to it, which built the ring; it closed 7, which leaves the ring in \<open>bridge\<close>;
  \<open>accept\<close> returned the number 7 again, for another connection from 10.0.0.1, and
  marked it; then the process forked.\<close>

definition stale :: "msgbuf shim" where
  "stale = bridged\<lparr>rdmableSockets := {7}, forkGeneration := 1\<rparr>"





text \<open>The flag \<open>MSG_DONTWAIT\<close> of \<^verbatim>\<open>sys/socket.h\<close> on Linux, one of the flags \<open>send\<close>
  does not forward to \<open>write\<close>.\<close>

definition MSG_DONTWAIT :: int where
  "MSG_DONTWAIT = 64"

text \<open>Arrays for \<open>poll\<close>: one entry asking for output, one asking for input, and two
  entries asking for input whose \<open>revents\<close> a previous call has set.\<close>

definition out_fds :: "pollfd list" where
  "out_fds = [\<lparr>poll_fd = 3, events = POLLOUT, revents = 0\<rparr>]"

definition in_fds :: "pollfd list" where
  "in_fds = [\<lparr>poll_fd = 3, events = POLLIN, revents = POLLIN\<rparr>]"

definition mixed_fds :: "pollfd list" where
  "mixed_fds =
     [\<lparr>poll_fd = 3, events = POLLIN, revents = POLLIN\<rparr>,
      \<lparr>poll_fd = 4, events = POLLIN, revents = POLLIN\<rparr>]"

section \<open>Lemmas about the ring\<close>

lemma bytes_of_nat32:
  assumes "n < 2 ^ 32"
  shows "n mod 256 + 256 * (n div 256 mod 256) + 65536 * (n div 65536 mod 256)
         + 16777216 * (n div 16777216 mod 256) = (n::nat)"
proof -
  define a where "a = n div 256"
  define b where "b = a div 256"
  define c where "c = b div 256"
  have n: "n = n mod 256 + 256 * a" by (simp add: a_def)
  have a: "a = a mod 256 + 256 * b" by (simp add: b_def)
  have b: "b = b mod 256 + 256 * c" by (simp add: c_def)
  have b': "b = n div 65536" by (simp add: b_def a_def div_mult2_eq [symmetric])
  have c': "c = n div 16777216" by (simp add: c_def b' div_mult2_eq [symmetric])
  have "c < 256" using assms by (simp add: c')
  then have c: "c mod 256 = c" by simp
  have "n mod 256 + 256 * (a mod 256) + 65536 * (b mod 256) + 16777216 * (c mod 256) = n"
    using n a b c by linarith
  then show ?thesis unfolding a_def b' c' .
qed

lemma of_le32_le32: "of_le32 (le32 w) = w"
proof -
  have b: "unat (of_nat (n mod 256) :: byte) = n mod 256" for n
    by (simp add: unat_of_nat)
  have "unat w < 2 ^ 32"
    using unsigned_less [of w, where ?'a = nat] by simp
  then have e: "unat w mod 256 + 256 * (unat w div 256 mod 256) + 65536 * (unat w div 65536 mod 256)
         + 16777216 * (unat w div 16777216 mod 256) = unat w"
    by (rule bytes_of_nat32)
  have "of_le32 (le32 w) =
      of_nat (unat w mod 256 + 256 * (unat w div 256 mod 256) + 65536 * (unat w div 65536 mod 256)
         + 16777216 * (unat w div 16777216 mod 256))"
    by (simp add: of_le32_def le32_def b del: of_nat_add of_nat_mult)
  also have "\<dots> = of_nat (unat w)"
    by (simp only: e)
  finally show ?thesis by simp
qed

lemma length_le32: "length (le32 w) = 4"
  by (simp add: le32_def)

lemma rd_block:
  assumes "m = pre @ blk @ suf" and "pos mod N = length pre" and "length pre + length blk \<le> N"
  shows "rd m N pos (length blk) = blk"
proof (rule nth_equalityI)
  show "length (rd m N pos (length blk)) = length blk"
    by (simp add: rd_def)
next
  fix i assume "i < length (rd m N pos (length blk))"
  then have i: "i < length blk" by (simp add: rd_def)
  have "(pos + i) mod N = (pos mod N + i) mod N"
    by (simp add: mod_add_left_eq)
  also have "\<dots> = length pre + i"
    using assms(2,3) i by simp
  finally have "(pos + i) mod N = length pre + i" .
  then show "rd m N pos (length blk) ! i = blk ! i"
    using i assms(1) by (simp add: rd_def nth_append)
qed

lemma send_wait_enough: "need \<le> free_space r \<Longrightarrow> send_wait r need refreshed = Some r"
  by (subst send_wait.simps) simp

lemma unat_len32: "n < 2 ^ 32 \<Longrightarrow> unat (of_nat n :: 32 word) = n"
  by (simp add: unat_of_nat)

lemma mod_shift: "a mod N + k < N \<Longrightarrow> (a + k) mod N = a mod N + (k::nat)"
proof -
  assume h: "a mod N + k < N"
  have "(a + k) mod N = (a mod N + k) mod N"
    by (simp add: mod_add_left_eq)
  with h show ?thesis by simp
qed

lemma roundtrip_at:
  assumes len: "1 \<le> length b" "length b \<le> cap"
    and N: "ring_size r \<le> 2 ^ 32" "length (mem r) = ring_size r"
    and fits: "writePos r mod ring_size r + 12 + length b \<le> ring_size r"
    and space: "12 + length b \<le> free_space r"
    and drained: "readPos r = writePos r"
  shows "send r b = Some (post r b)
       \<and> receive (post r b) cap = Some (Inr b, consume (post r b) (length b))"
proof -
  let ?N = "ring_size r" and ?n = "length b"
  let ?off = "writePos r mod ?N"
  let ?h = "le32 (of_nat ?n)" and ?f = "le32 (of_nat ?n XOR VALIDITY_MASK)"
  let ?pre = "take ?off (mem r)" and ?suf = "drop (?off + length (frame b)) (mem r)"
  have pad: "padding r ?n = 0"
    using fits by (simp add: padding_def Let_def)
  have need: "needed r ?n = 12 + ?n"
    by (simp add: needed_def pad)
  have sent: "send r b = Some (post r b)"
    using space by (simp add: send_def need send_wait_enough)
  have m: "mem (post r b) = ?pre @ ?h @ b @ ?f @ ?suf"
    by (simp add: post_def Let_def pad wr_at_def frame_def)
  have lpre: "length ?pre = ?off"
    using fits N(2) by simp
  have sz: "ring_size (post r b) = ?N" and rp: "readPos (post r b) = writePos r"
    using drained by (simp_all add: post_def Let_def)
  have n32: "?n < 2 ^ 32"
    using fits N(1) by simp
  have o4: "(writePos r + 4) mod ?N = length (?pre @ ?h)"
    using fits lpre by (simp add: mod_shift length_le32)
  have o4n: "(writePos r + 4 + ?n) mod ?N = length (?pre @ ?h @ b)"
    using fits lpre mod_shift [of "writePos r" ?N "4 + ?n"] by (simp add: length_le32 add.assoc)
  have "rd (mem (post r b)) ?N (writePos r) (length ?h) = ?h"
    by (rule rd_block [where pre = ?pre and suf = "b @ ?f @ ?suf"])
       (use m lpre fits in \<open>simp_all add: length_le32\<close>)
  then have hdr: "rd (mem (post r b)) ?N (writePos r) 4 = ?h"
    by (simp add: length_le32)
  have pay: "rd (mem (post r b)) ?N (writePos r + 4) ?n = b"
    by (rule rd_block [where pre = "?pre @ ?h" and suf = "?f @ ?suf"])
       (use m o4 lpre fits in \<open>simp_all add: length_le32\<close>)
  have "rd (mem (post r b)) ?N (writePos r + 4 + ?n) (length ?f) = ?f"
    by (rule rd_block [where pre = "?pre @ ?h @ b" and suf = ?suf])
       (use m o4n lpre fits in \<open>simp_all add: length_le32\<close>)
  then have ftr: "rd (mem (post r b)) ?N (writePos r + 4 + ?n) 4 = ?f"
    by (simp add: length_le32)
  have "?n \<noteq> 0" and "\<not> ?n > ?N - 12"
    using len(1) fits by auto
  then have det: "detect (post r b) = Landed ?n"
    by (simp add: detect_def Let_def sz rp hdr ftr of_le32_le32 unat_len32 [OF n32])
  have "receive (post r b) cap = Some (Inr b, consume (post r b) ?n)"
    using len(2) by (subst receive.simps) (simp add: det sz rp pay)
  with sent show ?thesis by simp
qed

lemma send_fresh:
  "1 \<le> length b \<Longrightarrow> length b + 12 \<le> N \<Longrightarrow> N \<le> 2 ^ 32 \<Longrightarrow> send (fresh N) b = Some (post (fresh N) b)"
  using roundtrip_at [of b "length b" "fresh N"] by (simp add: fresh_def free_space_def)

lemma detect_pending: "detect (post (fresh 4096) ten_bytes) = Landed 10"
  by (simp add: detect_def post_def fresh_def ten_bytes_def padding_def needed_def wr_at_def
      frame_def le32_def of_le32_def rd_def VALIDITY_MASK_def Let_def)



lemma send_enough:
  "needed r (length b) \<le> free_space r \<Longrightarrow> send r b = Some (post r b)"
  by (simp add: send_def send_wait_enough)

text \<open>What a \<open>send\<close> that returns has waited for.\<close>

lemma send_wait_result:
  assumes "send_wait r need refreshed = Some r1"
  shows "need \<le> free_space r1 \<and> (r1 = r \<or> r1 = r\<lparr>peerReadPos := slot r\<rparr>)"
proof (rule send_wait.raw_induct [where P = "\<lambda>r need refreshed r1.
        need \<le> free_space r1 \<and> (r1 = r \<or> r1 = r\<lparr>peerReadPos := slot r\<rparr>)", OF _ assms],
    goal_cases)
  case (1 sw r need refreshed r1)
  show ?case
  proof (cases "need \<le> free_space r")
    case True
    with 1(2) show ?thesis by simp
  next
    case False
    show ?thesis
    proof (cases refreshed)
      case True
      with False 1(2) have "sw r need True = Some r1" by simp
      then show ?thesis by (rule 1(1))
    next
      case f: False
      with False 1(2) have "sw (r\<lparr>peerReadPos := slot r\<rparr>) need True = Some r1" by simp
      from 1(1) [OF this] show ?thesis by auto
    qed
  qed
qed

lemma send_result:
  assumes "send r b = Some r'"
  obtains r0 where "r0 = r \<or> r0 = r\<lparr>peerReadPos := slot r\<rparr>"
    "needed r (length b) \<le> free_space r0" "r' = post r0 b"
proof -
  from assms obtain r0 where w: "send_wait r (needed r (length b)) False = Some r0"
    and r': "r' = post r0 b"
    by (auto simp: send_def split: option.splits)
  from send_wait_result [OF w] that r' show ?thesis by blast
qed


lemma free_space_le: "free_space r \<le> ring_size r"
  by (simp add: free_space_def)








lemma frame_in_ring:
  assumes "send r b = Some r'" "length (mem r) = ring_size r"
  shows "take (length (frame b))
           (drop ((writePos r + padding r (length b)) mod ring_size r) (mem r')) = frame b"
    and "writePos r' = writePos r + needed r (length b)"
proof -
  from assms(1) obtain r0 where r0: "r0 = r \<or> r0 = r\<lparr>peerReadPos := slot r\<rparr>"
    and sp: "needed r (length b) \<le> free_space r0" and r': "r' = post r0 b"
    by (rule send_result)
  from r0 have same: "ring_size r0 = ring_size r" "mem r0 = mem r" "writePos r0 = writePos r"
    by auto
  have pn: "padding r0 (length b) = padding r (length b)" "needed r0 (length b) = needed r (length b)"
    by (simp_all add: padding_def needed_def same)
  have "12 \<le> needed r (length b)" by (simp add: needed_def)
  with sp free_space_le [of r0] have pos: "0 < ring_size r" by (simp add: same)
  then have "(writePos r + padding r (length b)) mod ring_size r \<le> length (mem r)"
    by (simp add: assms(2) less_imp_le)
  then show "take (length (frame b))
           (drop ((writePos r + padding r (length b)) mod ring_size r) (mem r')) = frame b"
    by (simp add: r' post_def Let_def same pn wr_at_def)
  show "writePos r' = writePos r + needed r (length b)"
    by (simp add: r' post_def Let_def same pn)
qed




































section \<open>Lemmas about the overrides\<close>

declare write_p002.simps [simp del] read_p002.simps [simp del]

lemma write_p002_bridged:
  "bridge s fd = Some buf \<Longrightarrow>
   write_p002 c env rw s fd src = via_ring s fd (\<lambda>u. int (length src)) (core_send c buf src)"
  by (subst write_p002.simps) (simp add: via_ring_def split: outcome.splits)

lemma write_p002_unparsed:
  "bridge s fd = None \<Longrightarrow> getForkGenIntercept env = Inl e
   \<Longrightarrow> write_p002 c env rw s fd src = Throw e s"
  by (subst write_p002.simps) simp

lemma write_p002_tcp:
  "bridge s fd = None \<Longrightarrow> getForkGenIntercept env = Inr g
   \<Longrightarrow> \<not> (forkGeneration s = g \<and> fd \<in> rdmableSockets s)
   \<Longrightarrow> write_p002 c env rw s fd src = Return rw s"
  by (subst write_p002.simps) auto

lemma write_p002_ctor_fails:
  "bridge s fd = None \<Longrightarrow> getForkGenIntercept env = Inr (forkGeneration s)
   \<Longrightarrow> fd \<in> rdmableSockets s \<Longrightarrow> core_construct c BUFFER_SIZE fd = Inl e
   \<Longrightarrow> write_p002 c env rw s fd src = Throw e (s\<lparr>rdmableSockets := rdmableSockets s - {fd}\<rparr>)"
  by (subst write_p002.simps) simp

lemma write_p002_ctor_ok:
  "bridge s fd = None \<Longrightarrow> getForkGenIntercept env = Inr (forkGeneration s)
   \<Longrightarrow> fd \<in> rdmableSockets s \<Longrightarrow> core_construct c BUFFER_SIZE fd = Inr buf
   \<Longrightarrow> write_p002 c env rw s fd src =
       via_ring (s\<lparr>rdmableSockets := rdmableSockets s - {fd}, bridge := (bridge s)(fd \<mapsto> buf)\<rparr>)
         fd (\<lambda>u. int (length src)) (core_send c buf src)"
  by (subst write_p002.simps) (simp add: write_p002_bridged)

lemma read_p002_bridged:
  "bridge s fd = Some buf \<Longrightarrow>
   read_p002 c env rr s fd n = via_ring s fd (\<lambda>res. (int (length res), res)) (core_receive c buf n)"
  by (subst read_p002.simps) (simp add: via_ring_def split: outcome.splits)

lemma read_p002_unparsed:
  "bridge s fd = None \<Longrightarrow> getForkGenIntercept env = Inl e
   \<Longrightarrow> read_p002 c env rr s fd n = Throw e s"
  by (subst read_p002.simps) simp

lemma read_p002_tcp:
  "bridge s fd = None \<Longrightarrow> getForkGenIntercept env = Inr g
   \<Longrightarrow> \<not> (forkGeneration s = g \<and> fd \<in> rdmableSockets s)
   \<Longrightarrow> read_p002 c env rr s fd n = Return rr s"
  by (subst read_p002.simps) auto

lemma read_p002_ctor_fails:
  "bridge s fd = None \<Longrightarrow> getForkGenIntercept env = Inr (forkGeneration s)
   \<Longrightarrow> fd \<in> rdmableSockets s \<Longrightarrow> core_construct c BUFFER_SIZE fd = Inl e
   \<Longrightarrow> read_p002 c env rr s fd n = Throw e (s\<lparr>rdmableSockets := rdmableSockets s - {fd}\<rparr>)"
  by (subst read_p002.simps) simp

lemma read_p002_ctor_ok:
  "bridge s fd = None \<Longrightarrow> getForkGenIntercept env = Inr (forkGeneration s)
   \<Longrightarrow> fd \<in> rdmableSockets s \<Longrightarrow> core_construct c BUFFER_SIZE fd = Inr buf
   \<Longrightarrow> read_p002 c env rr s fd n =
       via_ring (s\<lparr>rdmableSockets := rdmableSockets s - {fd}, bridge := (bridge s)(fd \<mapsto> buf)\<rparr>)
         fd (\<lambda>res. (int (length res), res)) (core_receive c buf n)"
  by (subst read_p002.simps) (simp add: read_p002_bridged)

lemma via_ring_dontClose:
  "via_ring s fd f out = Return v s' \<or> via_ring s fd f out = Throw e s'
   \<Longrightarrow> dontCloseRDMA s' = dontCloseRDMA s \<and> forkGeneration s' = forkGeneration s
       \<and> bridge s' fd \<noteq> None"
  by (auto simp: via_ring_def split: outcome.splits)

lemma write_p002_cases:
  obtains (bridged) buf where "bridge s fd = Some buf"
      "write_p002 c env rw s fd src = via_ring s fd (\<lambda>u. int (length src)) (core_send c buf src)"
  | (unparsed) e where "bridge s fd = None" "getForkGenIntercept env = Inl e"
      "write_p002 c env rw s fd src = Throw e s"
  | (tcp) g where "bridge s fd = None" "getForkGenIntercept env = Inr g"
      "\<not> (forkGeneration s = g \<and> fd \<in> rdmableSockets s)"
      "write_p002 c env rw s fd src = Return rw s"
  | (fails) e where "bridge s fd = None" "getForkGenIntercept env = Inr (forkGeneration s)"
      "fd \<in> rdmableSockets s" "core_construct c BUFFER_SIZE fd = Inl e"
      "write_p002 c env rw s fd src = Throw e (s\<lparr>rdmableSockets := rdmableSockets s - {fd}\<rparr>)"
  | (built) buf where "bridge s fd = None" "getForkGenIntercept env = Inr (forkGeneration s)"
      "fd \<in> rdmableSockets s" "core_construct c BUFFER_SIZE fd = Inr buf"
      "write_p002 c env rw s fd src =
         via_ring (s\<lparr>rdmableSockets := rdmableSockets s - {fd}, bridge := (bridge s)(fd \<mapsto> buf)\<rparr>)
           fd (\<lambda>u. int (length src)) (core_send c buf src)"
proof (cases "bridge s fd")
  case (Some buf)
  show ?thesis by (rule bridged [OF Some write_p002_bridged [OF Some]])
next
  case None
  show ?thesis
  proof (cases "getForkGenIntercept env")
    case (Inl e)
    show ?thesis by (rule unparsed [OF None Inl write_p002_unparsed [OF None Inl]])
  next
    case (Inr g)
    show ?thesis
    proof (cases "forkGeneration s = g \<and> fd \<in> rdmableSockets s")
      case False
      show ?thesis by (rule tcp [OF None Inr False write_p002_tcp [OF None Inr False]])
    next
      case True
      then have gate: "getForkGenIntercept env = Inr (forkGeneration s)" and mark: "fd \<in> rdmableSockets s"
        using Inr by simp_all
      show ?thesis
      proof (cases "core_construct c BUFFER_SIZE fd")
        case (Inl e)
        show ?thesis by (rule fails [OF None gate mark Inl write_p002_ctor_fails [OF None gate mark Inl]])
      next
        case (Inr buf)
        show ?thesis by (rule built [OF None gate mark Inr write_p002_ctor_ok [OF None gate mark Inr]])
      qed
    qed
  qed
qed

lemma read_p002_cases:
  obtains (bridged) buf where "bridge s fd = Some buf"
      "read_p002 c env rr s fd n = via_ring s fd (\<lambda>res. (int (length res), res)) (core_receive c buf n)"
  | (unparsed) e where "bridge s fd = None" "getForkGenIntercept env = Inl e"
      "read_p002 c env rr s fd n = Throw e s"
  | (tcp) g where "bridge s fd = None" "getForkGenIntercept env = Inr g"
      "\<not> (forkGeneration s = g \<and> fd \<in> rdmableSockets s)"
      "read_p002 c env rr s fd n = Return rr s"
  | (fails) e where "bridge s fd = None" "getForkGenIntercept env = Inr (forkGeneration s)"
      "fd \<in> rdmableSockets s" "core_construct c BUFFER_SIZE fd = Inl e"
      "read_p002 c env rr s fd n = Throw e (s\<lparr>rdmableSockets := rdmableSockets s - {fd}\<rparr>)"
  | (built) buf where "bridge s fd = None" "getForkGenIntercept env = Inr (forkGeneration s)"
      "fd \<in> rdmableSockets s" "core_construct c BUFFER_SIZE fd = Inr buf"
      "read_p002 c env rr s fd n =
         via_ring (s\<lparr>rdmableSockets := rdmableSockets s - {fd}, bridge := (bridge s)(fd \<mapsto> buf)\<rparr>)
           fd (\<lambda>res. (int (length res), res)) (core_receive c buf n)"
proof (cases "bridge s fd")
  case (Some buf)
  show ?thesis by (rule bridged [OF Some read_p002_bridged [OF Some]])
next
  case None
  show ?thesis
  proof (cases "getForkGenIntercept env")
    case (Inl e)
    show ?thesis by (rule unparsed [OF None Inl read_p002_unparsed [OF None Inl]])
  next
    case (Inr g)
    show ?thesis
    proof (cases "forkGeneration s = g \<and> fd \<in> rdmableSockets s")
      case False
      show ?thesis by (rule tcp [OF None Inr False read_p002_tcp [OF None Inr False]])
    next
      case True
      then have gate: "getForkGenIntercept env = Inr (forkGeneration s)" and mark: "fd \<in> rdmableSockets s"
        using Inr by simp_all
      show ?thesis
      proof (cases "core_construct c BUFFER_SIZE fd")
        case (Inl e)
        show ?thesis by (rule fails [OF None gate mark Inl read_p002_ctor_fails [OF None gate mark Inl]])
      next
        case (Inr buf)
        show ?thesis by (rule built [OF None gate mark Inr read_p002_ctor_ok [OF None gate mark Inr]])
      qed
    qed
  qed
qed

lemma write_p002_dontClose:
  assumes "write_p002 c env rw s fd src = Return v s' \<or> write_p002 c env rw s fd src = Throw e s'"
  shows "dontCloseRDMA s' = dontCloseRDMA s"
proof (cases rule: write_p002_cases [of s fd c env rw src])
  case (bridged buf)
  show ?thesis
    using assms unfolding bridged(2) by (rule via_ring_dontClose [THEN conjunct1])
next
  case (unparsed e)
  with assms show ?thesis by auto
next
  case (tcp g)
  with assms show ?thesis by auto
next
  case (fails e)
  with assms show ?thesis by auto
next
  case (built buf)
  let ?s1 = "s\<lparr>rdmableSockets := rdmableSockets s - {fd}, bridge := (bridge s)(fd \<mapsto> buf)\<rparr>"
  have "dontCloseRDMA s' = dontCloseRDMA ?s1"
    using assms unfolding built(5) by (rule via_ring_dontClose [THEN conjunct1])
  then show ?thesis by simp
qed

lemma read_p002_dontClose:
  assumes "read_p002 c env rr s fd n = Return v s' \<or> read_p002 c env rr s fd n = Throw e s'"
  shows "dontCloseRDMA s' = dontCloseRDMA s"
proof (cases rule: read_p002_cases [of s fd c env rr n])
  case (bridged buf)
  show ?thesis
    using assms unfolding bridged(2) by (rule via_ring_dontClose [THEN conjunct1])
next
  case (unparsed e)
  with assms show ?thesis by auto
next
  case (tcp g)
  with assms show ?thesis by auto
next
  case (fails e)
  with assms show ?thesis by auto
next
  case (built buf)
  let ?s1 = "s\<lparr>rdmableSockets := rdmableSockets s - {fd}, bridge := (bridge s)(fd \<mapsto> buf)\<rparr>"
  have "dontCloseRDMA s' = dontCloseRDMA ?s1"
    using assms unfolding built(5) by (rule via_ring_dontClose [THEN conjunct1])
  then show ?thesis by simp
qed

lemma reachable_dontCloseRDMA: "reachable c env s \<Longrightarrow> dontCloseRDMA s"
proof (induction rule: reachable.induct)
  case start
  show ?case by (simp add: initial_shim_def)
next
  case (after_accept s k client_socket server_socket)
  then show ?case by (simp add: accept_p002_def)
next
  case (after_connect s k connect_rc in_progress poll_revents fd)
  then show ?case by (simp add: connect_p002_def)
next
  case (after_write s real_write fd source n s')
  then show ?case using write_p002_dontClose by blast
next
  case (after_write_throw s real_write fd source e s')
  then show ?case using write_p002_dontClose by blast
next
  case (after_read s real_read fd requested_bytes res s')
  then show ?case using read_p002_dontClose by blast
next
  case (after_read_throw s real_read fd requested_bytes e s')
  then show ?case using read_p002_dontClose by blast
next
  case (after_close s real_close fd)
  then show ?case by (simp add: close_p002_def)
next
  case (after_fork s res)
  then show ?case by (simp add: fork_p002_def Let_def)
qed

lemma intercept_only_if:
  "shouldClientIntercept env k fd \<Longrightarrow>
     isTcpSocket k fd False \<and> peer_s_addr (k fd) = getRDMAReachable env"
  "shouldServerIntercept env k server fd \<Longrightarrow>
     isTcpSocket k server True \<and> peer_s_addr (k fd) = getRDMAReachable env"
  by (auto simp: shouldClientIntercept_def shouldServerIntercept_def Let_def split: if_splits)

lemma no_intercept_when_unset:
  "USE_RDMA env = None \<Longrightarrow> peer_s_addr (k fd) \<noteq> 0 \<Longrightarrow>
     \<not> shouldClientIntercept env k fd \<and> \<not> shouldServerIntercept env k server fd"
  by (auto simp: shouldClientIntercept_def shouldServerIntercept_def getRDMAReachable_def
      getRdmaEnv_def Let_def)

lemma word64_succ_neq: "(g :: 64 word) + 1 \<noteq> g"
  by simp

lemma accept_marks:
  "accept_p002 env_rdma (\<lambda>fd. tcp_socket 0x0100000A) 7 (initial_shim :: msgbuf shim) 4
     = (7, initial_shim\<lparr>rdmableSockets := {7}\<rparr>)"
  by (simp add: accept_p002_def shouldServerIntercept_def isTcpSocket_def tcp_socket_def
      env_rdma_def getRDMAReachable_def getRdmaEnv_def initial_shim_def)

lemma write_builds_ring:
  "write_p002 (ring_core ctor_ok) env_rdma 0 (initial_shim\<lparr>rdmableSockets := {7}\<rparr>) 7 hello
     = Return 5 bridged"
proof -
  have len: "length hello = 5" by (simp add: hello_def)
  have s: "send (fresh BUFFER_SIZE) hello = Some (post (fresh BUFFER_SIZE) hello)"
    using send_fresh [of hello BUFFER_SIZE] by (simp add: len BUFFER_SIZE_def)
  show ?thesis
    by (subst write_p002_ctor_ok [where buf = "\<lparr>rx = fresh BUFFER_SIZE, tx = fresh BUFFER_SIZE\<rparr>"])
       (simp_all add: initial_shim_def getForkGenIntercept_def env_rdma_def ring_core_def
          ctor_ok_def via_ring_def buf_send_def s len bridged_def)
qed

lemma reachable_bridged: "reachable (ring_core ctor_ok) env_rdma bridged"
proof -
  have "reachable (ring_core ctor_ok) env_rdma
          (snd (accept_p002 env_rdma (\<lambda>fd. tcp_socket 0x0100000A) 7 (initial_shim :: msgbuf shim) 4))"
    by (rule reachable.after_accept) (rule reachable.start)
  then have "reachable (ring_core ctor_ok) env_rdma (initial_shim\<lparr>rdmableSockets := {7}\<rparr>)"
    by (simp add: accept_marks)
  then show ?thesis
    using write_builds_ring by (rule reachable.after_write)
qed

lemma reachable_marked_bad: "reachable (ring_core ctor_ok) env_bad marked"
proof -
  have "accept_p002 env_bad (\<lambda>fd. tcp_socket 0x0100000A) 5 (initial_shim :: msgbuf shim) 4
          = (5, marked)"
    by (simp add: accept_p002_def shouldServerIntercept_def isTcpSocket_def tcp_socket_def
        env_bad_def getRDMAReachable_def getRdmaEnv_def initial_shim_def marked_def)
  moreover have "reachable (ring_core ctor_ok) env_bad
          (snd (accept_p002 env_bad (\<lambda>fd. tcp_socket 0x0100000A) 5 (initial_shim :: msgbuf shim) 4))"
    by (rule reachable.after_accept) (rule reachable.start)
  ultimately show ?thesis by simp
qed

lemma reachable_stale: "reachable (ring_core ctor_ok) env_rdma stale"
proof -
  have closed: "snd (close_p002 0 bridged 7) = bridged"
    by (simp add: close_p002_def bridged_def initial_shim_def)
  have again: "snd (accept_p002 env_rdma (\<lambda>fd. tcp_socket 0x0100000A) 7 bridged 4)
          = bridged\<lparr>rdmableSockets := {7}\<rparr>"
    by (simp add: accept_p002_def shouldServerIntercept_def isTcpSocket_def tcp_socket_def
        env_rdma_def getRDMAReachable_def getRdmaEnv_def initial_shim_def bridged_def)
  have child: "snd (fork_p002 0 (bridged\<lparr>rdmableSockets := {7}\<rparr>)) = stale"
    by (simp add: fork_p002_def Let_def stale_def bridged_def initial_shim_def)
  have "reachable (ring_core ctor_ok) env_rdma (snd (close_p002 0 bridged 7))"
    using reachable_bridged by (rule reachable.after_close)
  then have "reachable (ring_core ctor_ok) env_rdma bridged"
    by (simp only: closed)
  then have "reachable (ring_core ctor_ok) env_rdma
          (snd (accept_p002 env_rdma (\<lambda>fd. tcp_socket 0x0100000A) 7 bridged 4))"
    by (rule reachable.after_accept)
  then have "reachable (ring_core ctor_ok) env_rdma (bridged\<lparr>rdmableSockets := {7}\<rparr>)"
    by (simp only: again)
  then have "reachable (ring_core ctor_ok) env_rdma
          (snd (fork_p002 0 (bridged\<lparr>rdmableSockets := {7}\<rparr>)))"
    by (rule reachable.after_fork)
  then show ?thesis by (simp only: child)
qed

lemma second_hello:
  "send (post (fresh BUFFER_SIZE) hello) hello = Some (post (post (fresh BUFFER_SIZE) hello) hello)"
  by (rule send_enough)
     (simp add: needed_def padding_def free_space_def post_def fresh_def hello_def BUFFER_SIZE_def
        Let_def)

lemma stale_ring:
  "bridge stale 7 = Some \<lparr>rx = fresh BUFFER_SIZE, tx = post (fresh BUFFER_SIZE) hello\<rparr>"
  "(7::int) \<in> rdmableSockets stale" "forkGeneration stale = 1"
  by (simp_all add: stale_def bridged_def initial_shim_def)

text \<open>In part_000 no descriptor is ever bridged.\<close>

lemma reachable_p000_empty: "reachable_p000 c br \<Longrightarrow> br = Map.empty"
proof (induction rule: reachable_p000.induct)
  case start_p000
  show ?case by simp
next
  case (after_accept_p000 br k server_socket client_socket)
  then show ?case
    by (auto simp: accept_p000_def Let_def SOCK_STREAM_def)
next
  case (after_connect_p000 br k fd connect_rc)
  then show ?case
    by (auto simp: connect_p000_def Let_def SOCK_STREAM_def)
next
  case (after_write_p000 br real_write fd source n br')
  then show ?case by (simp add: write_p000_def)
next
  case (after_write_throw_p000 br real_write fd source e br')
  then show ?case by (simp add: write_p000_def)
next
  case (after_read_p000 br real_read fd requested_bytes res br')
  then show ?case by (simp add: read_p000_def)
next
  case (after_read_throw_p000 br real_read fd requested_bytes e br')
  then show ?case by (simp add: read_p000_def)
next
  case (after_close_p000 br real_close fd)
  then show ?case by (simp add: close_p000_def)
qed

lemma p000_never_bridged:
  assumes "reachable_p000 c br"
  shows "br fd = None" "write_p000 c rw br fd src = Return rw br"
    "read_p000 c rr br fd n = Return rr br"
  using reachable_p000_empty [OF assms] by (simp_all add: write_p000_def read_p000_def)


text \<open>A \<open>write\<close> of part_002 that returns with a ring for the descriptor has gone
  through that ring.\<close>

lemma via_ring_Return:
  assumes "via_ring s fd f out = Return v s'"
  obtains res buf' where "out = Return res buf'" "v = f res" "s' = s\<lparr>bridge := (bridge s)(fd \<mapsto> buf')\<rparr>"
  using assms by (auto simp: via_ring_def split: outcome.splits)

lemma write_p002_through_ring:
  assumes "write_p002 c env rw s fd src = Return v s'" "bridge s' fd \<noteq> None"
  shows "v = int (length src)
       \<and> (\<exists>buf buf'. (bridge s fd = Some buf
                       \<or> bridge s fd = None \<and> core_construct c BUFFER_SIZE fd = Inr buf)
             \<and> core_send c buf src = Return () buf' \<and> bridge s' fd = Some buf')"
proof (cases rule: write_p002_cases [of s fd c env rw src])
  case (bridged buf)
  from assms(1) [unfolded bridged(2)] obtain res buf' where
    "core_send c buf src = Return res buf'" "v = int (length src)"
    "s' = s\<lparr>bridge := (bridge s)(fd \<mapsto> buf')\<rparr>"
    by (rule via_ring_Return)
  with bridged(1) show ?thesis by auto
next
  case (unparsed e)
  with assms show ?thesis by simp
next
  case (tcp g)
  with assms show ?thesis by simp
next
  case (fails e)
  with assms show ?thesis by simp
next
  case (built buf)
  from assms(1) [unfolded built(5)] obtain res buf' where
    "core_send c buf src = Return res buf'" "v = int (length src)"
    "s' = s\<lparr>rdmableSockets := rdmableSockets s - {fd}, bridge := (bridge s)(fd \<mapsto> buf)\<rparr>
            \<lparr>bridge := (bridge (s\<lparr>rdmableSockets := rdmableSockets s - {fd},
                  bridge := (bridge s)(fd \<mapsto> buf)\<rparr>))(fd \<mapsto> buf')\<rparr>"
    by (rule via_ring_Return)
  with built(1,4) show ?thesis by auto
qed

lemma buf_send_Return:
  assumes "buf_send buf src = Return u buf'"
  shows "send (tx buf) src = Some (tx buf')" "rx buf' = rx buf"
  using assms by (auto simp: buf_send_def split: option.splits)

section \<open>Lemmas about poll\<close>

lemma poll_visit_length: "length (fst (poll_visit c seen br i st)) = length (fst st)"
  by (simp add: poll_visit_def Let_def)

lemma poll_visit_events: "map events (fst (poll_visit c seen br i st)) = map events (fst st)"
proof (cases "i < length (fst st)")
  case True
  then show ?thesis
    by (simp add: poll_visit_def Let_def map_update list_update_same_conv)
next
  case False
  then have "(fst st)[i := y] = fst st" for y
    by (simp add: list_update_beyond)
  then show ?thesis
    by (simp add: poll_visit_def Let_def)
qed

lemma poll_visit_count:
  "snd st + (if events (fst st ! i) AND POLLOUT \<noteq> 0 then 1 else 0) \<le> snd (poll_visit c seen br i st)"
  by (simp add: poll_visit_def Let_def)

lemma events_nth: "map events xs = map events ys \<Longrightarrow> i < length ys \<Longrightarrow> events (xs ! i) = events (ys ! i)"
  by (metis length_map nth_map)

lemma poll_pass_count:
  assumes "\<forall>i \<in> set is. i < length (fst st)"
  shows "snd st + int (length (filter (\<lambda>i. events (fst st ! i) AND POLLOUT \<noteq> 0) is))
           \<le> snd (fold (poll_visit c seen br) is st)"
  using assms
proof (induction "is" arbitrary: st)
  case Nil
  then show ?case by simp
next
  case (Cons i "is")
  let ?st1 = "poll_visit c seen br i st"
  have len: "length (fst ?st1) = length (fst st)"
    by (rule poll_visit_length)
  have ev: "events (fst ?st1 ! j) = events (fst st ! j)" if "j < length (fst st)" for j
    using that poll_visit_events [of c seen br i st] by (rule events_nth [rotated])
  have same: "filter (\<lambda>j. events (fst ?st1 ! j) AND POLLOUT \<noteq> 0) is
            = filter (\<lambda>j. events (fst st ! j) AND POLLOUT \<noteq> 0) is"
    using Cons.prems by (intro filter_cong) (simp_all add: ev)
  have "snd ?st1 + int (length (filter (\<lambda>j. events (fst ?st1 ! j) AND POLLOUT \<noteq> 0) is))
          \<le> snd (fold (poll_visit c seen br) is ?st1)"
    using Cons.prems by (intro Cons.IH) (simp add: len)
  with poll_visit_count [of st i c seen br] show ?case
    by (simp add: same split: if_splits)
qed

lemma filter_indices: "length (filter (\<lambda>i. P (xs ! i)) [0..<length xs]) = length (filter P xs)"
proof -
  have "filter P xs = filter P (map (\<lambda>i. xs ! i) [0..<length xs])"
    by (simp add: map_nth)
  also have "\<dots> = map (\<lambda>i. xs ! i) (filter (\<lambda>i. P (xs ! i)) [0..<length xs])"
    by (simp add: filter_map comp_def)
  finally show ?thesis by simp
qed

lemma all_bridged: "normal_indices br fds = [] \<Longrightarrow> rdma_indices br fds = [0..<length fds]"
  by (simp add: normal_indices_def rdma_indices_def filter_empty_conv)

lemma poll_loop_first_pass:
  "0 < snd (fold (poll_visit c (peer k) br) rdma_fds st) \<Longrightarrow>
   poll_loop c peer clock timeout br rdma_fds st k = Some (fold (poll_visit c (peer k) br) rdma_fds st)"
  by (subst poll_loop.simps) (simp add: Let_def)

lemma mixed_indices:
  "rdma_indices [3 \<mapsto> idle] mixed_fds = [0]" "normal_indices [3 \<mapsto> idle] mixed_fds = [1]"
  by (simp_all add: rdma_indices_def normal_indices_def mixed_fds_def upt_rec)

section \<open>Properties\<close>







text \<open>Claim C3 fails in the call in which construction fails. Descriptor 5 is marked
  RDMA-capable and the handshake fails: \<open>write\<close> of part_002 leaves by the constructor's
  exception instead of returning what \<open>real::write\<close> returns.\<close>

theorem write_p002_ctor_failure_throws:
  "write_p002 (ring_core ctor_fails) env_rdma 1 marked 5 hello = Throw HandshakeFailed initial_shim
   \<and> Throw HandshakeFailed initial_shim \<noteq> (Return 1 marked :: (int, msgbuf shim) outcome)"
  by (subst write_p002_ctor_fails [where e = HandshakeFailed])
     (simp_all add: marked_def initial_shim_def getForkGenIntercept_def env_rdma_def ring_core_def
        ctor_fails_def)

text \<open>Claim C3 as amended. The call in which construction fails reports the failure:
  \<open>write\<close> and \<open>read\<close> of part_002 leave by the constructor's exception, \<open>accept\<close> of
  part_000 returns \<open>ERROR\<close>. After it the descriptor has no ring and, in part_002, is no
  longer marked RDMA-capable, so every later \<open>write\<close> and \<open>read\<close> on it returns what
  \<open>real::write\<close> and \<open>real::read\<close> return.\<close>

theorem ctor_failure_then_tcp:
  "(core_construct c BUFFER_SIZE fd = Inl e \<and> bridge s fd = None \<and> fd \<in> rdmableSockets s
      \<and> getForkGenIntercept env = Inr (forkGeneration s)
      \<and> s' = s\<lparr>rdmableSockets := rdmableSockets s - {fd}\<rparr>
    \<longrightarrow> write_p002 c env rw s fd src = Throw e s'
      \<and> read_p002 c env rr s fd n = Throw e s'
      \<and> write_p002 c env rw' s' fd src' = Return rw' s'
      \<and> read_p002 c env rr' s' fd n' = Return rr' s')
   \<and> (core_construct c (4 * 1024) fd = Inl e \<and> 0 \<le> fd \<and> br fd = None
      \<and> getsockopt_rc (k server_socket) = SOCK_STREAM \<and> 0 \<le> getsockname_rc (k server_socket)
      \<and> sockname_family (k server_socket) = AF_INET
    \<longrightarrow> accept_p000 c k fd br server_socket = (ERROR, br)
      \<and> write_p000 c rw' br fd src' = Return rw' br
      \<and> read_p000 c rr' br fd n' = Return rr' br)"
proof (intro conjI impI)
  assume h: "core_construct c BUFFER_SIZE fd = Inl e \<and> bridge s fd = None \<and> fd \<in> rdmableSockets s
      \<and> getForkGenIntercept env = Inr (forkGeneration s)
      \<and> s' = s\<lparr>rdmableSockets := rdmableSockets s - {fd}\<rparr>"
  then show "write_p002 c env rw s fd src = Throw e s'" "read_p002 c env rr s fd n = Throw e s'"
    by (simp_all add: write_p002_ctor_fails read_p002_ctor_fails)
  from h show "write_p002 c env rw' s' fd src' = Return rw' s'"
    "read_p002 c env rr' s' fd n' = Return rr' s'"
    by (simp_all add: write_p002_tcp [where g = "forkGeneration s"]
        read_p002_tcp [where g = "forkGeneration s"])
next
  assume h: "core_construct c (4 * 1024) fd = Inl e \<and> 0 \<le> fd \<and> br fd = None
      \<and> getsockopt_rc (k server_socket) = SOCK_STREAM \<and> 0 \<le> getsockname_rc (k server_socket)
      \<and> sockname_family (k server_socket) = AF_INET"
  then show "accept_p000 c k fd br server_socket = (ERROR, br)"
    by (simp add: accept_p000_def Let_def SOCK_STREAM_def)
  from h show "write_p000 c rw' br fd src' = Return rw' br" "read_p000 c rr' br fd n' = Return rr' br"
    by (simp_all add: write_p000_def read_p000_def)
qed

text \<open>Descriptor 5, marked, in a process whose handshakes fail: the first \<open>write\<close> and the
  first \<open>read\<close> throw, the later ones go to TCP. For part_000 the kernel is one in which
  the \<open>SOCK_STREAM\<close> test of \<open>accept\<close> passes.\<close>

theorem ctor_failure_then_tcp_witness:
  "core_construct (ring_core ctor_fails) BUFFER_SIZE 5 = Inl HandshakeFailed
   \<and> bridge marked 5 = None \<and> (5::int) \<in> rdmableSockets marked
   \<and> getForkGenIntercept env_rdma = Inr (forkGeneration marked)
   \<and> initial_shim = marked\<lparr>rdmableSockets := rdmableSockets marked - {5}\<rparr>
   \<and> write_p002 (ring_core ctor_fails) env_rdma 1 marked 5 hello = Throw HandshakeFailed initial_shim
   \<and> read_p002 (ring_core ctor_fails) env_rdma (1, [0]) marked 5 16
        = Throw HandshakeFailed initial_shim
   \<and> write_p002 (ring_core ctor_fails) env_rdma 5 initial_shim 5 hello = Return 5 initial_shim
   \<and> read_p002 (ring_core ctor_fails) env_rdma (1, [0]) initial_shim 5 16
        = Return (1, [0]) initial_shim
   \<and> core_construct (ring_core ctor_fails) (4 * 1024) 5 = Inl HandshakeFailed
   \<and> getsockopt_rc ((tcp_socket 0x0100000A)\<lparr>getsockopt_rc := SOCK_STREAM\<rparr>) = SOCK_STREAM
   \<and> accept_p000 (ring_core ctor_fails)
        (\<lambda>fd. (tcp_socket 0x0100000A)\<lparr>getsockopt_rc := SOCK_STREAM\<rparr>) 5 Map.empty 4
        = (ERROR, Map.empty)
   \<and> write_p000 (ring_core ctor_fails) 5 Map.empty 5 hello = Return 5 Map.empty
   \<and> read_p000 (ring_core ctor_fails) (1, [0]) Map.empty 5 16 = Return (1, [0]) Map.empty"
  using ctor_failure_then_tcp [of "ring_core ctor_fails" 5 HandshakeFailed marked env_rdma
      initial_shim 1 hello "(1, [0])" 16 5 hello "(1, [0])" 16 Map.empty
      "\<lambda>fd. (tcp_socket 0x0100000A)\<lparr>getsockopt_rc := SOCK_STREAM\<rparr>" 4]
  by (simp add: marked_def initial_shim_def getForkGenIntercept_def env_rdma_def ring_core_def
      ctor_fails_def tcp_socket_def SOCK_STREAM_def AF_INET_def)

text \<open>Claim C4 fails in part_002. Descriptor 7 is accepted from 10.0.0.1 and written to,
  which builds its ring; \<open>close(7)\<close> then leaves the ring in \<open>bridge\<close>.\<close>

theorem close_p002_keeps_ring:
  "reachable (ring_core ctor_ok) env_rdma bridged
   \<and> close_p002 0 bridged 7 = (0, bridged)
   \<and> bridge (snd (close_p002 0 bridged 7)) 7
       = Some \<lparr>rx = fresh BUFFER_SIZE, tx = post (fresh BUFFER_SIZE) hello\<rparr>"
  using reachable_bridged by (simp add: close_p002_def bridged_def initial_shim_def)

text \<open>Claim C4 as amended. In every state part_002 can reach, \<open>dontCloseRDMA\<close> is true, so
  \<open>close\<close> returns what \<open>real::close\<close> returns and changes nothing: the ring of a bridged
  descriptor stays. In part_000 \<open>close\<close> erases the descriptor's entry, which destroys
  its buffer.\<close>

theorem close_destroys_only_in_p000:
  "(reachable c env s \<longrightarrow> close_p002 real_close s fd = (real_close, s))
   \<and> snd (close_p000 real_close br fd) fd = None"
  by (simp add: close_p002_def close_p000_def reachable_dontCloseRDMA)

theorem close_destroys_only_in_p000_witness:
  "reachable (ring_core ctor_ok) env_rdma bridged
   \<and> close_p002 0 bridged 7 = (0, bridged)
   \<and> bridge bridged 7 \<noteq> None
   \<and> snd (close_p000 0 [7 \<mapsto> idle] 7) 7 = None"
  using reachable_bridged
    close_destroys_only_in_p000 [of "ring_core ctor_ok" env_rdma bridged 0 7 "[7 \<mapsto> idle]"]
  by (simp add: bridged_def)

text \<open>Claim C5 fails for \<open>send\<close> with a flag it does not forward to \<open>write\<close>.
  Descriptor 7 is bridged; \<open>send(7, "hello", 5, MSG_DONTWAIT)\<close> is routed to
  \<open>real::send\<close> on the socket (lines 188-190), returns the count the kernel reports,
  here 2 of 5, and puts nothing into the ring.\<close>

theorem send_flags_bypass_ring:
  "reachable (ring_core ctor_ok) env_rdma bridged
   \<and> bridge bridged 7 = Some \<lparr>rx = fresh BUFFER_SIZE, tx = post (fresh BUFFER_SIZE) hello\<rparr>
   \<and> length hello = 5 \<and> MSG_DONTWAIT \<noteq> 0 \<and> MSG_DONTWAIT \<noteq> MSG_NOSIGNAL
   \<and> send_p002 (ring_core ctor_ok) env_rdma 5 2 bridged 7 hello MSG_DONTWAIT = Return 2 bridged"
proof -
  have b: "bridge bridged 7 = Some \<lparr>rx = fresh BUFFER_SIZE, tx = post (fresh BUFFER_SIZE) hello\<rparr>"
    by (simp add: bridged_def)
  have l: "length hello = 5" by (simp add: hello_def)
  have f: "MSG_DONTWAIT \<noteq> 0" "MSG_DONTWAIT \<noteq> MSG_NOSIGNAL"
    by (simp_all add: MSG_DONTWAIT_def MSG_NOSIGNAL_def)
  have s: "send_p002 (ring_core ctor_ok) env_rdma 5 2 bridged 7 hello MSG_DONTWAIT = Return 2 bridged"
    using f by (simp add: send_p002_def)
  from reachable_bridged b l f s show ?thesis by simp
qed

text \<open>Claim C5 as amended. A \<open>write\<close> of part_002 that returns, on a descriptor that
  has a ring when it returns, has called \<open>send\<close> of that ring with the whole payload,
  after building the ring if the descriptor was only marked, and returns the full count.
  A \<open>send\<close> of the ring that returns has put the whole frame, header, payload and
  footer, into the peer's ring behind the padding and has advanced \<open>writePos\<close> by the
  counter space of the message. \<open>send\<close> with flags 0 or \<open>MSG_NOSIGNAL\<close> is \<open>write\<close>;
  with any other flags it returns what \<open>real::send\<close> returns and leaves the ring alone.
  In part_000 no descriptor is ever bridged, so \<open>write\<close> returns what \<open>real::write\<close>
  returns; its \<open>return SUCCESS\<close> of line 114 is never reached.\<close>

theorem write_full_count:
  "(write_p002 c env rw s fd src = Return v s' \<and> bridge s' fd \<noteq> None
      \<longrightarrow> v = int (length src)
        \<and> (\<exists>buf buf'. (bridge s fd = Some buf
                        \<or> bridge s fd = None \<and> core_construct c BUFFER_SIZE fd = Inr buf)
              \<and> core_send c buf src = Return () buf' \<and> bridge s' fd = Some buf'))
   \<and> (buf_send buf1 src1 = Return u buf1' \<and> length (mem (tx buf1)) = ring_size (tx buf1)
      \<longrightarrow> send (tx buf1) src1 = Some (tx buf1') \<and> rx buf1' = rx buf1
        \<and> take (length (frame src1))
            (drop ((writePos (tx buf1) + padding (tx buf1) (length src1)) mod ring_size (tx buf1))
               (mem (tx buf1'))) = frame src1
        \<and> writePos (tx buf1') = writePos (tx buf1) + needed (tx buf1) (length src1))
   \<and> (flags = 0 \<or> flags = MSG_NOSIGNAL
      \<longrightarrow> send_p002 c2 env2 rw2 rs2 s2 fd2 src2 flags = write_p002 c2 env2 rw2 s2 fd2 src2)
   \<and> (flags' \<noteq> 0 \<and> flags' \<noteq> MSG_NOSIGNAL
      \<longrightarrow> send_p002 c2 env2 rw2 rs2 s2 fd2 src2 flags' = Return rs2 s2)
   \<and> (reachable_p000 c0 br \<longrightarrow> br fd0 = None \<and> write_p000 c0 rw0 br fd0 src0 = Return rw0 br)"
proof (intro conjI impI)
  assume h: "write_p002 c env rw s fd src = Return v s' \<and> bridge s' fd \<noteq> None"
  then have w: "write_p002 c env rw s fd src = Return v s'" and nb: "bridge s' fd \<noteq> None"
    by simp_all
  note r = write_p002_through_ring [OF w nb]
  from r show "v = int (length src)" by (rule conjunct1)
  from r show "\<exists>buf buf'. (bridge s fd = Some buf
                        \<or> bridge s fd = None \<and> core_construct c BUFFER_SIZE fd = Inr buf)
              \<and> core_send c buf src = Return () buf' \<and> bridge s' fd = Some buf'"
    by (rule conjunct2)
next
  assume h: "buf_send buf1 src1 = Return u buf1' \<and> length (mem (tx buf1)) = ring_size (tx buf1)"
  then have bs: "buf_send buf1 src1 = Return u buf1'"
    and l: "length (mem (tx buf1)) = ring_size (tx buf1)"
    by (rule conjunct1, rule conjunct2)
  note s = buf_send_Return(1) [OF bs] and x = buf_send_Return(2) [OF bs]
  show "send (tx buf1) src1 = Some (tx buf1')" by (rule s)
  show "rx buf1' = rx buf1" by (rule x)
  show "take (length (frame src1))
            (drop ((writePos (tx buf1) + padding (tx buf1) (length src1)) mod ring_size (tx buf1))
               (mem (tx buf1'))) = frame src1"
    by (rule frame_in_ring(1) [OF s l])
  show "writePos (tx buf1') = writePos (tx buf1) + needed (tx buf1) (length src1)"
    by (rule frame_in_ring(2) [OF s l])
next
  assume "flags = 0 \<or> flags = MSG_NOSIGNAL"
  then show "send_p002 c2 env2 rw2 rs2 s2 fd2 src2 flags = write_p002 c2 env2 rw2 s2 fd2 src2"
    by (simp add: send_p002_def)
next
  assume "flags' \<noteq> 0 \<and> flags' \<noteq> MSG_NOSIGNAL"
  then show "send_p002 c2 env2 rw2 rs2 s2 fd2 src2 flags' = Return rs2 s2"
    by (simp add: send_p002_def)
next
  assume h: "reachable_p000 c0 br"
  show "br fd0 = None" by (rule p000_never_bridged(1) [OF h])
  show "write_p000 c0 rw0 br fd0 src0 = Return rw0 br" by (rule p000_never_bridged(2) [OF h])
qed

text \<open>Descriptor 7, marked by \<open>accept\<close>: \<open>write\<close> of "hello" builds the ring, puts
  the frame of 13 bytes at offset 0 and returns 5, and so does \<open>send\<close> with
  \<open>MSG_NOSIGNAL\<close>; \<open>send\<close> with \<open>MSG_DONTWAIT\<close> returns the 2 of \<open>real::send\<close>.
  In part_000 \<open>write\<close> on descriptor 5 returns the 3 of \<open>real::write\<close>.\<close>

theorem write_full_count_witness:
  "write_p002 (ring_core ctor_ok) env_rdma 0 (initial_shim\<lparr>rdmableSockets := {7}\<rparr>) 7 hello
     = Return 5 bridged
   \<and> bridge bridged 7 = Some \<lparr>rx = fresh BUFFER_SIZE, tx = post (fresh BUFFER_SIZE) hello\<rparr>
   \<and> int (length hello) = 5
   \<and> buf_send \<lparr>rx = fresh BUFFER_SIZE, tx = fresh BUFFER_SIZE\<rparr> hello
       = Return () \<lparr>rx = fresh BUFFER_SIZE, tx = post (fresh BUFFER_SIZE) hello\<rparr>
   \<and> length (mem (fresh BUFFER_SIZE)) = ring_size (fresh BUFFER_SIZE)
   \<and> take (length (frame hello)) (mem (post (fresh BUFFER_SIZE) hello)) = frame hello
   \<and> writePos (post (fresh BUFFER_SIZE) hello) = 17
   \<and> send_p002 (ring_core ctor_ok) env_rdma 0 2 (initial_shim\<lparr>rdmableSockets := {7}\<rparr>) 7 hello
        MSG_NOSIGNAL = Return 5 bridged
   \<and> send_p002 (ring_core ctor_ok) env_rdma 0 2 (initial_shim\<lparr>rdmableSockets := {7}\<rparr>) 7 hello
        MSG_DONTWAIT = Return 2 (initial_shim\<lparr>rdmableSockets := {7}\<rparr>)
   \<and> reachable_p000 (ring_core ctor_ok) (Map.empty :: int \<rightharpoonup> msgbuf)
   \<and> write_p000 (ring_core ctor_ok) 3 Map.empty 5 hello = Return 3 Map.empty"
proof -
  let ?idle = "\<lparr>rx = fresh BUFFER_SIZE, tx = fresh BUFFER_SIZE\<rparr>"
  let ?sent = "\<lparr>rx = fresh BUFFER_SIZE, tx = post (fresh BUFFER_SIZE) hello\<rparr>"
  note t = write_full_count [where c = "ring_core ctor_ok" and env = env_rdma and rw = 0
      and s = "initial_shim\<lparr>rdmableSockets := {7}\<rparr>" and fd = 7 and src = hello and v = 5
      and s' = bridged and ?buf1.0 = ?idle and ?src1.0 = hello and u = "()" and buf1' = ?sent
      and flags = MSG_NOSIGNAL and flags' = MSG_DONTWAIT and ?c2.0 = "ring_core ctor_ok"
      and ?env2.0 = env_rdma and ?rw2.0 = 0 and ?rs2.0 = 2
      and ?s2.0 = "initial_shim\<lparr>rdmableSockets := {7}\<rparr>" and ?fd2.0 = 7 and ?src2.0 = hello
      and ?c0.0 = "ring_core ctor_ok" and br = Map.empty and ?fd0.0 = 5 and ?rw0.0 = 3
      and ?src0.0 = hello]
  have len: "length hello = 5" by (simp add: hello_def)
  have b: "bridge bridged 7 = Some ?sent"
    by (simp add: bridged_def)
  have c1: "int (length hello) = 5"
    using t write_builds_ring b by simp
  have s: "send (fresh BUFFER_SIZE) hello = Some (post (fresh BUFFER_SIZE) hello)"
    using send_fresh [of hello BUFFER_SIZE] by (simp add: len BUFFER_SIZE_def)
  have bs: "buf_send ?idle hello = Return () ?sent"
    by (simp add: buf_send_def s)
  have fr: "length (mem (fresh BUFFER_SIZE)) = ring_size (fresh BUFFER_SIZE)"
    "writePos (fresh BUFFER_SIZE) = 0" "padding (fresh BUFFER_SIZE) (length hello) = 0"
    "needed (fresh BUFFER_SIZE) (length hello) = 17"
    by (simp_all add: fresh_def padding_def needed_def len BUFFER_SIZE_def)
  have c2: "take (length (frame hello)) (mem (post (fresh BUFFER_SIZE) hello)) = frame hello"
    "writePos (post (fresh BUFFER_SIZE) hello) = 17"
    using t bs fr(1) by (simp_all add: fr(2-4))
  have f: "MSG_DONTWAIT \<noteq> 0" "MSG_DONTWAIT \<noteq> MSG_NOSIGNAL"
    by (simp_all add: MSG_DONTWAIT_def MSG_NOSIGNAL_def)
  have c3: "send_p002 (ring_core ctor_ok) env_rdma 0 2 (initial_shim\<lparr>rdmableSockets := {7}\<rparr>) 7
        hello MSG_NOSIGNAL = Return 5 bridged"
    using t by (simp add: write_builds_ring)
  have c4: "send_p002 (ring_core ctor_ok) env_rdma 0 2 (initial_shim\<lparr>rdmableSockets := {7}\<rparr>) 7
        hello MSG_DONTWAIT = Return 2 (initial_shim\<lparr>rdmableSockets := {7}\<rparr>)"
    using t f by simp
  have re: "reachable_p000 (ring_core ctor_ok) (Map.empty :: int \<rightharpoonup> msgbuf)"
    by (rule reachable_p000.start_p000)
  have c5: "write_p000 (ring_core ctor_ok) 3 Map.empty 5 hello = Return 3 Map.empty"
    using t re by simp
  from write_builds_ring b c1 bs fr(1) c2 c3 c4 re c5 show ?thesis
    by simp
qed

text \<open>Claim C6, at the input where the code departs from it. \<open>USE_RDMA\<close> is unset, so
  the address to compare with is 0. A client whose \<open>connectedAddr\<close> reads 0 after
  \<open>getpeername\<close> (which fails on descriptor 5, its result being ignored), or whose peer
  address is 0, is selected by \<open>accept\<close> and by \<open>connect\<close>, and the next \<open>write\<close>
  builds a ring for it.\<close>

theorem unset_USE_RDMA_intercepts:
  "getRdmaEnv env_unset = None
   \<and> shouldServerIntercept env_unset peer_gone 4 5
   \<and> accept_p002 env_unset peer_gone 5 initial_shim 4 = (5, marked)
   \<and> shouldClientIntercept env_unset (\<lambda>fd. tcp_socket 0) 5
   \<and> connect_p002 env_unset (\<lambda>fd. tcp_socket 0) 0 False 0 initial_shim 5 = (0, marked)
   \<and> write_p002 (ring_core ctor_ok) env_unset 0 marked 5 hello
       = Return 5 (initial_shim\<lparr>bridge :=
           [5 \<mapsto> \<lparr>rx = fresh BUFFER_SIZE, tx = post (fresh BUFFER_SIZE) hello\<rparr>]\<rparr>)"
proof -
  have i: "shouldServerIntercept env_unset peer_gone 4 5"
    "shouldClientIntercept env_unset (\<lambda>fd. tcp_socket 0) 5"
    by (simp_all add: shouldServerIntercept_def shouldClientIntercept_def isTcpSocket_def
        tcp_socket_def peer_gone_def env_unset_def getRDMAReachable_def getRdmaEnv_def)
  have len: "length hello = 5" by (simp add: hello_def)
  have s: "send (fresh BUFFER_SIZE) hello = Some (post (fresh BUFFER_SIZE) hello)"
    using send_fresh [of hello BUFFER_SIZE] by (simp add: len BUFFER_SIZE_def)
  have w: "write_p002 (ring_core ctor_ok) env_unset 0 marked 5 hello
       = Return 5 (initial_shim\<lparr>bridge :=
           [5 \<mapsto> \<lparr>rx = fresh BUFFER_SIZE, tx = post (fresh BUFFER_SIZE) hello\<rparr>]\<rparr>)"
    by (subst write_p002_ctor_ok [where buf = "\<lparr>rx = fresh BUFFER_SIZE, tx = fresh BUFFER_SIZE\<rparr>"])
       (simp_all add: marked_def initial_shim_def getForkGenIntercept_def env_unset_def
          ring_core_def ctor_ok_def via_ring_def buf_send_def s len)
  have a: "accept_p002 env_unset peer_gone 5 initial_shim 4 = (5, marked)"
    using i(1) by (simp add: accept_p002_def marked_def initial_shim_def)
  have c: "connect_p002 env_unset (\<lambda>fd. tcp_socket 0) 0 False 0 initial_shim 5 = (0, marked)"
    using i(2) by (simp add: connect_p002_def SUCCESS_def ERROR_def marked_def initial_shim_def)
  have e: "getRdmaEnv env_unset = None"
    by (simp add: getRdmaEnv_def env_unset_def)
  from e i a c w show ?thesis by blast
qed

text \<open>Claim C7 fails in two ways. With \<open>RDMA_FORKGEN=abc\<close>, \<open>std::stoul\<close> throws inside
  \<open>getForkGenIntercept\<close>: in generation 0, which is not the configured value, \<open>write\<close>
  and \<open>read\<close> on the marked descriptor 5 leave by \<open>std::invalid_argument\<close> and neither
  build a ring nor call \<open>real::write\<close> or \<open>real::read\<close>. With \<open>RDMA_FORKGEN\<close> unset the
  gate is generation 0; in a child of generation 1, \<open>write\<close> on descriptor 7, which is
  marked and still has the ring of an earlier connection, sends into that ring and
  returns the full count, whatever \<open>real::write\<close> would return.\<close>

theorem fork_gate_not_tcp:
  "reachable (ring_core ctor_ok) env_bad marked
   \<and> RDMA_FORKGEN env_bad = Some ''abc'' \<and> stoul env_bad ''abc'' = Inl StdInvalidArgument
   \<and> (5::int) \<in> rdmableSockets marked \<and> forkGeneration marked = 0
   \<and> write_p002 (ring_core ctor_ok) env_bad 3 marked 5 hello = Throw StdInvalidArgument marked
   \<and> read_p002 (ring_core ctor_ok) env_bad (3, [0, 0, 0]) marked 5 16
       = Throw StdInvalidArgument marked
   \<and> reachable (ring_core ctor_ok) env_rdma stale
   \<and> RDMA_FORKGEN env_rdma = None
   \<and> (7::int) \<in> rdmableSockets stale \<and> forkGeneration stale = 1
   \<and> write_p002 (ring_core ctor_ok) env_rdma 3 stale 7 hello
       = Return 5 (stale\<lparr>bridge :=
           [7 \<mapsto> \<lparr>rx = fresh BUFFER_SIZE, tx = post (post (fresh BUFFER_SIZE) hello) hello\<rparr>]\<rparr>)"
proof -
  have e: "RDMA_FORKGEN env_bad = Some ''abc''" "stoul env_bad ''abc'' = Inl StdInvalidArgument"
    "RDMA_FORKGEN env_rdma = None"
    by (simp_all add: env_bad_def env_rdma_def)
  have g: "getForkGenIntercept env_bad = Inl StdInvalidArgument"
    by (simp add: getForkGenIntercept_def e)
  have m: "bridge marked 5 = None" "(5::int) \<in> rdmableSockets marked" "forkGeneration marked = 0"
    by (simp_all add: marked_def initial_shim_def)
  have w: "write_p002 (ring_core ctor_ok) env_bad 3 marked 5 hello = Throw StdInvalidArgument marked"
    using m(1) g by (rule write_p002_unparsed)
  have r: "read_p002 (ring_core ctor_ok) env_bad (3, [0, 0, 0]) marked 5 16
       = Throw StdInvalidArgument marked"
    using m(1) g by (rule read_p002_unparsed)
  have len: "length hello = 5" by (simp add: hello_def)
  have "write_p002 (ring_core ctor_ok) env_rdma 3 stale 7 hello
       = via_ring stale 7 (\<lambda>u. int (length hello))
           (core_send (ring_core ctor_ok)
              \<lparr>rx = fresh BUFFER_SIZE, tx = post (fresh BUFFER_SIZE) hello\<rparr> hello)"
    using stale_ring(1) by (rule write_p002_bridged)
  also have "\<dots> = Return 5 (stale\<lparr>bridge :=
           [7 \<mapsto> \<lparr>rx = fresh BUFFER_SIZE, tx = post (post (fresh BUFFER_SIZE) hello) hello\<rparr>]\<rparr>)"
    by (simp add: via_ring_def ring_core_def buf_send_def second_hello len)
       (simp add: stale_def bridged_def)
  finally have v: "write_p002 (ring_core ctor_ok) env_rdma 3 stale 7 hello
       = Return 5 (stale\<lparr>bridge :=
           [7 \<mapsto> \<lparr>rx = fresh BUFFER_SIZE, tx = post (post (fresh BUFFER_SIZE) hello) hello\<rparr>]\<rparr>)" .
  from reachable_marked_bad e m(2,3) w r reachable_stale stale_ring(2,3) v show ?thesis
    by simp
qed

text \<open>Claim C7 as amended. \<open>fork\<close> adds one to \<open>forkGeneration\<close> where \<open>real::fork\<close>
  returns 0, in the child, and nowhere else; the marks and the rings are the same in
  parent and child. \<open>accept\<close> and \<open>connect\<close> build no ring. For a descriptor that is
  marked and has no ring, when \<open>RDMA_FORKGEN\<close> is unset, which stands for generation 0, or
  holds text from which \<open>std::stoul\<close> returns a number: \<open>write\<close> and \<open>read\<close> build the
  ring, and use it, exactly when \<open>forkGeneration\<close> equals that number; in any other
  generation they return what \<open>real::write\<close> and \<open>real::read\<close> return and change nothing.
  When \<open>std::stoul\<close> throws on the text of \<open>RDMA_FORKGEN\<close>, \<open>write\<close> and \<open>read\<close> on
  every descriptor without a ring leave by that exception, in every generation, and
  change nothing. A descriptor that has a ring is served by it in every generation.\<close>

theorem fork_gate:
  "forkGeneration (snd (fork_p002 res s))
       = (if res = 0 then forkGeneration s + 1 else forkGeneration s)
   \<and> forkGeneration s + 1 \<noteq> forkGeneration s
   \<and> rdmableSockets (snd (fork_p002 res s)) = rdmableSockets s
   \<and> bridge (snd (fork_p002 res s)) = bridge s
   \<and> bridge (snd (accept_p002 env k client_socket s server_socket)) = bridge s
   \<and> bridge (snd (connect_p002 env k connect_rc in_progress poll_revents s fd)) = bridge s
   \<and> (fd \<in> rdmableSockets s \<and> bridge s fd = None
        \<and> (case RDMA_FORKGEN env of None \<Rightarrow> Inr 0 | Some forkGenChars \<Rightarrow> stoul env forkGenChars)
            = Inr g
      \<longrightarrow> write_p002 c env rw s fd src
           = (if forkGeneration s = g then
                (case core_construct c BUFFER_SIZE fd of
                   Inl e \<Rightarrow> Throw e (s\<lparr>rdmableSockets := rdmableSockets s - {fd}\<rparr>)
                 | Inr buf \<Rightarrow>
                     via_ring (s\<lparr>rdmableSockets := rdmableSockets s - {fd},
                                bridge := (bridge s)(fd \<mapsto> buf)\<rparr>)
                       fd (\<lambda>u. int (length src)) (core_send c buf src))
              else Return rw s)
        \<and> read_p002 c env rr s fd n
           = (if forkGeneration s = g then
                (case core_construct c BUFFER_SIZE fd of
                   Inl e \<Rightarrow> Throw e (s\<lparr>rdmableSockets := rdmableSockets s - {fd}\<rparr>)
                 | Inr buf \<Rightarrow>
                     via_ring (s\<lparr>rdmableSockets := rdmableSockets s - {fd},
                                bridge := (bridge s)(fd \<mapsto> buf)\<rparr>)
                       fd (\<lambda>res. (int (length res), res)) (core_receive c buf n))
              else Return rr s))
   \<and> (bridge s1 fd1 = None \<and> RDMA_FORKGEN env1 = Some forkGenChars1
        \<and> stoul env1 forkGenChars1 = Inl e1
      \<longrightarrow> write_p002 c env1 rw s1 fd1 src = Throw e1 s1
        \<and> read_p002 c env1 rr s1 fd1 n = Throw e1 s1)
   \<and> (bridge s2 fd2 = Some buf2
      \<longrightarrow> write_p002 c env2 rw s2 fd2 src
           = via_ring s2 fd2 (\<lambda>u. int (length src)) (core_send c buf2 src)
        \<and> read_p002 c env2 rr s2 fd2 n
           = via_ring s2 fd2 (\<lambda>res. (int (length res), res)) (core_receive c buf2 n))"
proof -
  have m: "bridge (snd (accept_p002 env k client_socket s server_socket)) = bridge s"
    "bridge (snd (connect_p002 env k connect_rc in_progress poll_revents s fd)) = bridge s"
    by (simp_all add: accept_p002_def connect_p002_def)
  have f: "forkGeneration (snd (fork_p002 res s))
           = (if res = 0 then forkGeneration s + 1 else forkGeneration s)"
    "rdmableSockets (snd (fork_p002 res s)) = rdmableSockets s"
    "bridge (snd (fork_p002 res s)) = bridge s"
    by (simp_all add: fork_p002_def Let_def)
  have gate: "write_p002 c env rw s fd src
           = (if forkGeneration s = g then
                (case core_construct c BUFFER_SIZE fd of
                   Inl e \<Rightarrow> Throw e (s\<lparr>rdmableSockets := rdmableSockets s - {fd}\<rparr>)
                 | Inr buf \<Rightarrow>
                     via_ring (s\<lparr>rdmableSockets := rdmableSockets s - {fd},
                                bridge := (bridge s)(fd \<mapsto> buf)\<rparr>)
                       fd (\<lambda>u. int (length src)) (core_send c buf src))
              else Return rw s)
        \<and> read_p002 c env rr s fd n
           = (if forkGeneration s = g then
                (case core_construct c BUFFER_SIZE fd of
                   Inl e \<Rightarrow> Throw e (s\<lparr>rdmableSockets := rdmableSockets s - {fd}\<rparr>)
                 | Inr buf \<Rightarrow>
                     via_ring (s\<lparr>rdmableSockets := rdmableSockets s - {fd},
                                bridge := (bridge s)(fd \<mapsto> buf)\<rparr>)
                       fd (\<lambda>res. (int (length res), res)) (core_receive c buf n))
              else Return rr s)"
    if h: "fd \<in> rdmableSockets s \<and> bridge s fd = None
        \<and> (case RDMA_FORKGEN env of None \<Rightarrow> Inr 0 | Some forkGenChars \<Rightarrow> stoul env forkGenChars)
            = Inr g"
  proof -
    from h have mark: "fd \<in> rdmableSockets s" and none: "bridge s fd = None"
      and g: "getForkGenIntercept env = Inr g"
      by (simp_all add: getForkGenIntercept_def)
    show ?thesis
    proof (cases "forkGeneration s = g")
      case False
      then have no: "\<not> (forkGeneration s = g \<and> fd \<in> rdmableSockets s)" by simp
      show ?thesis
        using False by (simp add: write_p002_tcp [OF none g no] read_p002_tcp [OF none g no])
    next
      case True
      with g have g': "getForkGenIntercept env = Inr (forkGeneration s)" by simp
      show ?thesis
      proof (cases "core_construct c BUFFER_SIZE fd")
        case (Inl e)
        show ?thesis
          using True
          by (simp add: Inl write_p002_ctor_fails [OF none g' mark Inl]
              read_p002_ctor_fails [OF none g' mark Inl])
      next
        case (Inr buf)
        show ?thesis
          using True
          by (simp add: Inr write_p002_ctor_ok [OF none g' mark Inr]
              read_p002_ctor_ok [OF none g' mark Inr])
      qed
    qed
  qed
  have bad: "write_p002 c env1 rw s1 fd1 src = Throw e1 s1
        \<and> read_p002 c env1 rr s1 fd1 n = Throw e1 s1"
    if h: "bridge s1 fd1 = None \<and> RDMA_FORKGEN env1 = Some forkGenChars1
        \<and> stoul env1 forkGenChars1 = Inl e1"
  proof -
    from h have none: "bridge s1 fd1 = None" and g: "getForkGenIntercept env1 = Inl e1"
      by (simp_all add: getForkGenIntercept_def)
    show ?thesis
      by (simp add: write_p002_unparsed [OF none g] read_p002_unparsed [OF none g])
  qed
  have ring: "write_p002 c env2 rw s2 fd2 src
           = via_ring s2 fd2 (\<lambda>u. int (length src)) (core_send c buf2 src)
        \<and> read_p002 c env2 rr s2 fd2 n
           = via_ring s2 fd2 (\<lambda>res. (int (length res), res)) (core_receive c buf2 n)"
    if h: "bridge s2 fd2 = Some buf2"
    by (simp add: write_p002_bridged [OF h] read_p002_bridged [OF h])
  from f m gate bad ring word64_succ_neq [of "forkGeneration s"] show ?thesis
    by blast
qed

text \<open>With \<open>RDMA_FORKGEN=1\<close> and descriptor 5 marked before the fork: the parent writes
  over TCP, the child builds the ring on its first \<open>write\<close>. With \<open>RDMA_FORKGEN=abc\<close>
  the \<open>write\<close> throws. Descriptor 7 of the state \<open>stale\<close> has a ring, and \<open>write\<close>
  uses it in generation 1 with \<open>RDMA_FORKGEN\<close> unset.\<close>

theorem fork_gate_witness:
  "(5::int) \<in> rdmableSockets marked \<and> bridge marked 5 = None
   \<and> RDMA_FORKGEN env_fork = Some ''1'' \<and> stoul env_fork ''1'' = Inr 1
   \<and> forkGeneration (snd (fork_p002 1234 marked)) = 0
   \<and> forkGeneration (snd (fork_p002 0 marked)) = 1
   \<and> (5::int) \<in> rdmableSockets (snd (fork_p002 0 marked))
   \<and> bridge (snd (fork_p002 0 marked)) 5 = None
   \<and> write_p002 (ring_core ctor_ok) env_fork 3 marked 5 hello = Return 3 marked
   \<and> write_p002 (ring_core ctor_ok) env_fork 3 (snd (fork_p002 0 marked)) 5 hello
       = Return 5 (initial_shim\<lparr>forkGeneration := 1, bridge :=
           [5 \<mapsto> \<lparr>rx = fresh BUFFER_SIZE, tx = post (fresh BUFFER_SIZE) hello\<rparr>]\<rparr>)
   \<and> RDMA_FORKGEN env_bad = Some ''abc'' \<and> stoul env_bad ''abc'' = Inl StdInvalidArgument
   \<and> write_p002 (ring_core ctor_ok) env_bad 3 marked 5 hello = Throw StdInvalidArgument marked
   \<and> bridge stale 7 = Some \<lparr>rx = fresh BUFFER_SIZE, tx = post (fresh BUFFER_SIZE) hello\<rparr>
   \<and> forkGeneration stale = 1 \<and> RDMA_FORKGEN env_rdma = None
   \<and> write_p002 (ring_core ctor_ok) env_rdma 3 stale 7 hello
       = Return 5 (stale\<lparr>bridge :=
           [7 \<mapsto> \<lparr>rx = fresh BUFFER_SIZE, tx = post (post (fresh BUFFER_SIZE) hello) hello\<rparr>]\<rparr>)"
proof -
  have len: "length hello = 5" by (simp add: hello_def)
  have s: "send (fresh BUFFER_SIZE) hello = Some (post (fresh BUFFER_SIZE) hello)"
    using send_fresh [of hello BUFFER_SIZE] by (simp add: len BUFFER_SIZE_def)
  have e: "RDMA_FORKGEN env_fork = Some ''1''" "stoul env_fork ''1'' = Inr 1"
    "RDMA_FORKGEN env_bad = Some ''abc''" "stoul env_bad ''abc'' = Inl StdInvalidArgument"
    "RDMA_FORKGEN env_rdma = None"
    by (simp_all add: env_fork_def env_bad_def env_rdma_def)
  have child: "snd (fork_p002 0 marked) = marked\<lparr>forkGeneration := 1\<rparr>"
    by (simp add: fork_p002_def marked_def initial_shim_def Let_def)
  have p: "(5::int) \<in> rdmableSockets marked" "bridge marked 5 = None" "forkGeneration marked = 0"
    by (simp_all add: marked_def initial_shim_def)
  note parent = fork_gate [where s = marked and fd = 5 and env = env_fork and g = 1
      and c = "ring_core ctor_ok" and rw = 3 and src = hello and res = 1234
      and ?s1.0 = marked and ?fd1.0 = 5 and ?env1.0 = env_bad and ?forkGenChars1.0 = "''abc''"
      and ?e1.0 = StdInvalidArgument
      and ?s2.0 = stale and ?fd2.0 = 7 and ?env2.0 = env_rdma
      and ?buf2.0 = "\<lparr>rx = fresh BUFFER_SIZE, tx = post (fresh BUFFER_SIZE) hello\<rparr>"]
  note forked = fork_gate [where s = marked and res = 0]
  note inchild = fork_gate [where s = "snd (fork_p002 0 marked)" and fd = 5 and env = env_fork
      and g = 1 and c = "ring_core ctor_ok" and rw = 3 and src = hello]
  have g0: "forkGeneration (snd (fork_p002 1234 marked)) = 0"
    using parent by (simp add: p)
  have g1: "forkGeneration (snd (fork_p002 0 marked)) = 1"
    using forked by (simp add: p)
  have pc: "(5::int) \<in> rdmableSockets (snd (fork_p002 0 marked))"
    "bridge (snd (fork_p002 0 marked)) 5 = None"
    using forked by (simp_all add: p)
  have w0: "write_p002 (ring_core ctor_ok) env_fork 3 marked 5 hello = Return 3 marked"
    using parent by (simp add: p e)
  have "write_p002 (ring_core ctor_ok) env_fork 3 (snd (fork_p002 0 marked)) 5 hello
       = via_ring (snd (fork_p002 0 marked)
             \<lparr>rdmableSockets := rdmableSockets (snd (fork_p002 0 marked)) - {5},
                bridge := (bridge (snd (fork_p002 0 marked)))
                  (5 \<mapsto> \<lparr>rx = fresh BUFFER_SIZE, tx = fresh BUFFER_SIZE\<rparr>)\<rparr>)
           5 (\<lambda>u. int (length hello))
           (core_send (ring_core ctor_ok) \<lparr>rx = fresh BUFFER_SIZE, tx = fresh BUFFER_SIZE\<rparr> hello)"
    using inchild by (simp add: pc e g1 ring_core_def ctor_ok_def)
  then have w1: "write_p002 (ring_core ctor_ok) env_fork 3 (snd (fork_p002 0 marked)) 5 hello
       = Return 5 (initial_shim\<lparr>forkGeneration := 1, bridge :=
           [5 \<mapsto> \<lparr>rx = fresh BUFFER_SIZE, tx = post (fresh BUFFER_SIZE) hello\<rparr>]\<rparr>)"
    unfolding child
    by (simp add: marked_def initial_shim_def ring_core_def via_ring_def buf_send_def s len)
  have w2: "write_p002 (ring_core ctor_ok) env_bad 3 marked 5 hello = Throw StdInvalidArgument marked"
    using parent by (simp add: p e)
  have "write_p002 (ring_core ctor_ok) env_rdma 3 stale 7 hello
       = via_ring stale 7 (\<lambda>u. int (length hello))
           (core_send (ring_core ctor_ok)
              \<lparr>rx = fresh BUFFER_SIZE, tx = post (fresh BUFFER_SIZE) hello\<rparr> hello)"
    using parent by (simp add: stale_ring)
  also have "\<dots> = Return 5 (stale\<lparr>bridge :=
           [7 \<mapsto> \<lparr>rx = fresh BUFFER_SIZE, tx = post (post (fresh BUFFER_SIZE) hello) hello\<rparr>]\<rparr>)"
    by (simp add: via_ring_def ring_core_def buf_send_def second_hello len)
       (simp add: stale_def bridged_def)
  finally have w3: "write_p002 (ring_core ctor_ok) env_rdma 3 stale 7 hello
       = Return 5 (stale\<lparr>bridge :=
           [7 \<mapsto> \<lparr>rx = fresh BUFFER_SIZE, tx = post (post (fresh BUFFER_SIZE) hello) hello\<rparr>]\<rparr>)" .
  from p(1,2) e g0 g1 pc w0 w1 w2 stale_ring(1,3) w3 show ?thesis
    by simp
qed

text \<open>Claim C8 fails for an array that mixes bridged and other descriptors: \<open>poll\<close>
  returns \<open>ERROR\<close> before the loop that clears \<open>revents\<close>, so the entries keep the
  \<open>revents\<close> they came with.\<close>

theorem poll_mixed_keeps_revents:
  "poll_p002 (ring_core ctor_ok) (0, []) (\<lambda>k buf. buf) (\<lambda>k. 0)
      (initial_shim\<lparr>bridge := [3 \<mapsto> idle]\<rparr>) mixed_fds 0 = Some (ERROR, mixed_fds)
   \<and> revents (mixed_fds ! 0) = 1"
  by (simp add: poll_p002_def mixed_indices initial_shim_def Let_def)
     (simp add: mixed_fds_def POLLIN_def)

text \<open>Claim C8 as amended. When \<open>poll\<close> returns for an array whose descriptors are all
  bridged or all not bridged, every entry's \<open>revents\<close> is 0, whatever count is returned;
  for an array that mixes the two it returns \<open>ERROR\<close> and leaves the array as it
  was.\<close>

theorem poll_revents_zero_unless_mixed:
  "(poll_p002 c real_poll peer clock s fds timeout = Some (n, fds')
      \<and> (rdma_indices (bridge s) fds = [] \<or> normal_indices (bridge s) fds = [])
      \<longrightarrow> (\<forall>p \<in> set fds'. revents p = 0))
   \<and> (rdma_indices (bridge s) fds \<noteq> [] \<and> normal_indices (bridge s) fds \<noteq> []
      \<longrightarrow> poll_p002 c real_poll peer clock s fds timeout = Some (ERROR, fds))"
proof (intro conjI impI)
  assume h: "poll_p002 c real_poll peer clock s fds timeout = Some (n, fds')
      \<and> (rdma_indices (bridge s) fds = [] \<or> normal_indices (bridge s) fds = [])"
  show "\<forall>p \<in> set fds'. revents p = 0"
  proof (cases "fds = []")
    case True
    with h show ?thesis by (simp add: poll_p002_def)
  next
    case False
    show ?thesis
    proof (cases "rdma_indices (bridge s) fds = []")
      case True
      with h False have "fds' = map (\<lambda>p. p\<lparr>revents := 0\<rparr>) (snd real_poll)"
        by (auto simp: poll_p002_def Let_def)
      then show ?thesis by simp
    next
      case rdma: False
      with h have normal: "normal_indices (bridge s) fds = []" by simp
      from h False rdma normal obtain st where "fds' = map (\<lambda>p. p\<lparr>revents := 0\<rparr>) (fst st)"
        by (auto simp: poll_p002_def Let_def split: option.splits)
      then show ?thesis by simp
    qed
  qed
next
  assume "rdma_indices (bridge s) fds \<noteq> [] \<and> normal_indices (bridge s) fds \<noteq> []"
  moreover from this have "fds \<noteq> []"
    by (auto simp: rdma_indices_def)
  ultimately show "poll_p002 c real_poll peer clock s fds timeout = Some (ERROR, fds)"
    by (simp add: poll_p002_def Let_def)
qed

theorem poll_revents_zero_unless_mixed_witness:
  "poll_p002 (ring_core ctor_ok) (0, []) (\<lambda>k buf. buf) (\<lambda>k. 0)
      (initial_shim\<lparr>bridge := [3 \<mapsto> pending]\<rparr>) in_fds 0
     = Some (1, [\<lparr>poll_fd = 3, events = POLLIN, revents = 0\<rparr>])
   \<and> normal_indices (bridge (initial_shim\<lparr>bridge := [3 \<mapsto> pending]\<rparr>)) in_fds = []
   \<and> map revents [\<lparr>poll_fd = 3, events = POLLIN, revents = 0\<rparr>] = [0]
   \<and> rdma_indices (bridge (initial_shim\<lparr>bridge := [3 \<mapsto> idle]\<rparr>)) mixed_fds \<noteq> []
   \<and> normal_indices (bridge (initial_shim\<lparr>bridge := [3 \<mapsto> idle]\<rparr>)) mixed_fds \<noteq> []
   \<and> poll_p002 (ring_core ctor_ok) (0, []) (\<lambda>k buf. buf) (\<lambda>k. 0)
      (initial_shim\<lparr>bridge := [3 \<mapsto> idle]\<rparr>) mixed_fds 0 = Some (ERROR, mixed_fds)"
proof -
  let ?s = "initial_shim\<lparr>bridge := [3 \<mapsto> pending]\<rparr>"
  have b: "bridge ?s = [3 \<mapsto> pending]"
    by (simp add: initial_shim_def)
  have n: "normal_indices [3 \<mapsto> pending] in_fds = []" "rdma_indices [3 \<mapsto> pending] in_fds = [0]"
    "length in_fds = 1"
    by (simp_all add: normal_indices_def rdma_indices_def in_fds_def)
  have h: "hasData (rx pending)"
    by (simp add: pending_def hasData_def detect_pending)
  have f: "poll_visit (ring_core ctor_ok) (\<lambda>buf. buf) [3 \<mapsto> pending] 0 (in_fds, 0)
        = ([\<lparr>poll_fd = 3, events = POLLIN, revents = POLLIN\<rparr>], 1)"
    using h by (simp add: in_fds_def poll_visit_def ring_core_def POLLOUT_def POLLIN_def Let_def)
  have l: "poll_loop (ring_core ctor_ok) (\<lambda>k buf. buf) (\<lambda>k. 0) 0 [3 \<mapsto> pending] [0] (in_fds, 0) 0
        = Some ([\<lparr>poll_fd = 3, events = POLLIN, revents = POLLIN\<rparr>], 1)"
    using poll_loop_first_pass [of "ring_core ctor_ok" "\<lambda>k buf. buf" 0 "[3 \<mapsto> pending]" "[0]"
        "(in_fds, 0)" "\<lambda>k. 0" 0]
    by (simp add: f)
  have p: "poll_p002 (ring_core ctor_ok) (0, []) (\<lambda>k buf. buf) (\<lambda>k. 0) ?s in_fds 0
     = Some (1, [\<lparr>poll_fd = 3, events = POLLIN, revents = 0\<rparr>])"
    by (simp add: poll_p002_def b n l Let_def)
  have m: "rdma_indices (bridge (initial_shim\<lparr>bridge := [3 \<mapsto> idle]\<rparr>)) mixed_fds \<noteq> []"
    "normal_indices (bridge (initial_shim\<lparr>bridge := [3 \<mapsto> idle]\<rparr>)) mixed_fds \<noteq> []"
    by (simp_all add: initial_shim_def mixed_indices)
  show ?thesis
    using poll_revents_zero_unless_mixed [of "ring_core ctor_ok" "(0, [])" "\<lambda>k buf. buf" "\<lambda>k. 0" ?s
        in_fds 0 1 "[\<lparr>poll_fd = 3, events = POLLIN, revents = 0\<rparr>]"]
      poll_revents_zero_unless_mixed [of "ring_core ctor_ok" "(0, [])" "\<lambda>k buf. buf" "\<lambda>k. 0"
        "initial_shim\<lparr>bridge := [3 \<mapsto> idle]\<rparr>" mixed_fds 0]
      p n b m
    by simp
qed

text \<open>Claim C9. In part_002, \<open>accept\<close> on a connection that \<open>real::accept\<close> delivered and
  that is not selected for interception returns \<open>SUCCESS\<close>, which is 0, whatever the new
  descriptor is, and leaves the state alone; in part_000 every call of \<open>accept\<close> that does
  not report \<open>ERROR\<close> returns 0. The accepted descriptor is never the source of the value
  returned.\<close>

theorem accept_returns_zero:
  "(0 \<le> client_socket \<and> \<not> shouldServerIntercept env k server_socket client_socket
      \<longrightarrow> accept_p002 env k client_socket s server_socket = (0, s))
   \<and> (fst (accept_p000 c k client_socket br server_socket) \<noteq> ERROR
      \<longrightarrow> fst (accept_p000 c k client_socket br server_socket) = 0)"
  by (auto simp: accept_p002_def accept_p000_def SUCCESS_def Let_def split: sum.splits)

text \<open>With \<open>USE_RDMA\<close> unset, a client at 127.0.0.1 is accepted as descriptor 5 on the
  listening socket 4: both versions return 0.\<close>

theorem accept_returns_zero_witness:
  "0 \<le> (5::int)
   \<and> \<not> shouldServerIntercept env_unset (\<lambda>fd. tcp_socket 0x0100007F) 4 5
   \<and> accept_p002 env_unset (\<lambda>fd. tcp_socket 0x0100007F) 5 (initial_shim :: msgbuf shim) 4
       = (0, initial_shim)
   \<and> fst (accept_p000 (ring_core ctor_ok) (\<lambda>fd. tcp_socket 0x0100007F) 5 Map.empty 4) \<noteq> ERROR
   \<and> fst (accept_p000 (ring_core ctor_ok) (\<lambda>fd. tcp_socket 0x0100007F) 5 Map.empty 4) = 0"
  using accept_returns_zero [of 5 env_unset "\<lambda>fd. tcp_socket 0x0100007F" 4
      "initial_shim :: msgbuf shim" "ring_core ctor_ok" Map.empty]
  by (simp add: shouldServerIntercept_def isTcpSocket_def tcp_socket_def env_unset_def
      getRDMAReachable_def getRdmaEnv_def accept_p000_def ERROR_def SUCCESS_def
      SOCK_STREAM_def AF_INET_def)

text \<open>Claim C10. When every descriptor of a non-empty array is bridged and at least one
  entry asks for \<open>POLLOUT\<close>, \<open>poll\<close> returns after the first pass, whatever \<open>hasData\<close>
  says, whatever the peer does and whatever the clock and the timeout are: the count
  returned is the one of the first pass, it is at least the number of entries asking for
  \<open>POLLOUT\<close>, and it is positive.\<close>

theorem poll_pollout_immediate:
  assumes "fds \<noteq> []" and "normal_indices (bridge s) fds = []"
    and "\<exists>p \<in> set fds. events p AND POLLOUT \<noteq> 0"
  shows "\<exists>n fds'. poll_p002 c real_poll peer clock s fds timeout = Some (n, fds')
           \<and> n = snd (fold (poll_visit c (peer 0) (bridge s)) [0..<length fds] (fds, 0))
           \<and> int (length (filter (\<lambda>p. events p AND POLLOUT \<noteq> 0) fds)) \<le> n
           \<and> 0 < n"
proof -
  let ?st1 = "fold (poll_visit c (peer 0) (bridge s)) [0..<length fds] (fds, 0)"
  have rd: "rdma_indices (bridge s) fds = [0..<length fds]"
    using assms(2) by (rule all_bridged)
  have "int (length (filter (\<lambda>i. events (fds ! i) AND POLLOUT \<noteq> 0) [0..<length fds]))
          \<le> snd ?st1"
    using poll_pass_count [of "[0..<length fds]" "(fds, 0)" c "peer 0" "bridge s"] by simp
  then have count: "int (length (filter (\<lambda>p. events p AND POLLOUT \<noteq> 0) fds)) \<le> snd ?st1"
    by (simp add: filter_indices [of "\<lambda>p. events p AND POLLOUT \<noteq> 0" fds])
  have "filter (\<lambda>p. events p AND POLLOUT \<noteq> 0) fds \<noteq> []"
    using assms(3) by (simp add: filter_empty_conv)
  then have "0 < length (filter (\<lambda>p. events p AND POLLOUT \<noteq> 0) fds)"
    by simp
  with count have pos: "0 < snd ?st1" by linarith
  have "poll_loop c peer clock timeout (bridge s) [0..<length fds] (fds, 0) 0 = Some ?st1"
    using pos by (rule poll_loop_first_pass)
  then have "poll_p002 c real_poll peer clock s fds timeout
               = Some (snd ?st1, map (\<lambda>p. p\<lparr>revents := 0\<rparr>) (fst ?st1))"
    using assms(1,2) by (simp add: poll_p002_def rd Let_def)
  with count pos show ?thesis by blast
qed

text \<open>An idle ring on descriptor 3, one entry asking for \<open>POLLOUT\<close>, no timeout: the call
  returns 1.\<close>

theorem poll_pollout_immediate_witness:
  "out_fds \<noteq> [] \<and> normal_indices (bridge (initial_shim\<lparr>bridge := [3 \<mapsto> idle]\<rparr>)) out_fds = []
   \<and> (\<exists>p \<in> set out_fds. events p AND POLLOUT \<noteq> 0)
   \<and> (\<exists>fds'. poll_p002 (ring_core ctor_ok) (0, []) (\<lambda>k buf. buf) (\<lambda>k. 0)
          (initial_shim\<lparr>bridge := [3 \<mapsto> idle]\<rparr>) out_fds (- 1) = Some (1, fds'))"
proof -
  have a: "out_fds \<noteq> []" "normal_indices (bridge (initial_shim\<lparr>bridge := [3 \<mapsto> idle]\<rparr>)) out_fds = []"
    "\<exists>p \<in> set out_fds. events p AND POLLOUT \<noteq> 0"
    by (simp_all add: out_fds_def normal_indices_def initial_shim_def POLLOUT_def)
  have "\<not> hasData (fresh 4096)"
    by (simp add: hasData_def detect_def fresh_def rd_def of_le32_def Let_def)
  then have "snd (fold (poll_visit (ring_core ctor_ok) (\<lambda>buf. buf)
        (bridge (initial_shim\<lparr>bridge := [3 \<mapsto> idle]\<rparr>))) [0..<length out_fds] (out_fds, 0)) = 1"
    by (simp add: out_fds_def poll_visit_def initial_shim_def ring_core_def idle_def POLLOUT_def
        POLLIN_def Let_def)
  with poll_pollout_immediate [OF a, of "ring_core ctor_ok" "(0, [])" "\<lambda>k buf. buf" "\<lambda>k. 0" "- 1"]
  have "\<exists>fds'. poll_p002 (ring_core ctor_ok) (0, []) (\<lambda>k buf. buf) (\<lambda>k. 0)
          (initial_shim\<lparr>bridge := [3 \<mapsto> idle]\<rparr>) out_fds (- 1) = Some (1, fds')"
    by auto
  with a show ?thesis by blast
qed

end
